theory Spec2Isabelle
  imports Main "HOL-Library.AList"
begin

section \<open>Text\<close>

text \<open>
  A Python \<open>str\<close> is a sequence of Unicode code points: a list of natural numbers. The
  string literals of the source are ASCII but for two Russian reply texts; an ASCII
  literal is written \<open>u ''...''\<close>, the list of the codes of its characters.
\<close>

type_synonym ustring = "nat list"

definition ord :: "char \<Rightarrow> nat" where
  "ord c = of_char c"

definition u :: "string \<Rightarrow> ustring" where
  "u s = map ord s"

abbreviation chr_tab :: nat where "chr_tab \<equiv> 9"
abbreviation chr_lf :: nat where "chr_lf \<equiv> 10"
abbreviation chr_cr :: nat where "chr_cr \<equiv> 13"
abbreviation chr_dquote :: nat where "chr_dquote \<equiv> 34"
abbreviation chr_quote :: nat where "chr_quote \<equiv> 39"
abbreviation chr_comma :: nat where "chr_comma \<equiv> 44"
abbreviation chr_gt :: nat where "chr_gt \<equiv> 62"
abbreviation chr_backslash :: nat where "chr_backslash \<equiv> 92"

text \<open>
  What Python knows of the characters beyond ASCII comes from the Unicode database of
  the interpreter, which is no part of the repository. It is a parameter \<open>U\<close> of the
  model: the word characters (\<open>\w\<close>), the white space (\<open>\s\<close>), which character of a text
  a character of a pattern matches under \<open>re.IGNORECASE\<close>, and the printable characters
  (\<open>repr\<close>). On ASCII the four are written out below. Every theorem holds for every \<open>U\<close>.
\<close>

record unicode =
  uni_word :: "nat \<Rightarrow> bool"
  uni_space :: "nat \<Rightarrow> bool"
  uni_ieq :: "nat \<Rightarrow> nat \<Rightarrow> bool"
  uni_printable :: "nat \<Rightarrow> bool"

definition ascii_alpha :: "nat \<Rightarrow> bool" where
  "ascii_alpha c = ((65 \<le> c \<and> c \<le> 90) \<or> (97 \<le> c \<and> c \<le> 122))"

definition ascii_lower :: "nat \<Rightarrow> nat" where
  "ascii_lower c = (if 65 \<le> c \<and> c \<le> 90 then c + 32 else c)"

definition is_word :: "unicode \<Rightarrow> nat \<Rightarrow> bool" where
  "is_word U c =
     (if c < 128 then (48 \<le> c \<and> c \<le> 57) \<or> ascii_alpha c \<or> c = 95
      else uni_word U c)"

definition is_space :: "unicode \<Rightarrow> nat \<Rightarrow> bool" where
  "is_space U c =
     (if c < 128 then (9 \<le> c \<and> c \<le> 13) \<or> (28 \<le> c \<and> c \<le> 32)
      else uni_space U c)"

text \<open>
  The character \<open>c\<close> of a pattern against the character \<open>x\<close> of a text, under
  \<open>re.IGNORECASE\<close>. A character without case (every ASCII character but the letters) is
  compiled to an exact comparison; two ASCII characters are compared in lower case;
  everything else is the business of the database (it also knows that \<open>k\<close> matches the
  Kelvin sign).
\<close>

definition ieq :: "unicode \<Rightarrow> nat \<Rightarrow> nat \<Rightarrow> bool" where
  "ieq U c x =
     (if c < 128 \<and> \<not> ascii_alpha c then x = c
      else if c < 128 \<and> x < 128 then ascii_lower x = ascii_lower c
      else uni_ieq U c x)"

definition printable :: "unicode \<Rightarrow> nat \<Rightarrow> bool" where
  "printable U c = (if c < 128 then 32 \<le> c \<and> c \<le> 126 else uni_printable U c)"

section \<open>Python values\<close>

text \<open>
  The values that flow through the dispatch core: what a handler may return, what an
  inbound payload holds, what is passed to the Slack client. A Python \<open>dict\<close> with string
  keys is an association list read with \<open>map_of\<close> and written with \<open>AList.update\<close>
  (assignment to a present key replaces its value in place, assignment to an absent key
  appends), which is the behaviour of a Python dict.
\<close>

datatype pyval =
    PyNone
  | PyBool bool
  | PyInt int
  | PyStr ustring
  | PyList "pyval list"
  | PyDict "(ustring \<times> pyval) list"

type_synonym pydict = "(ustring \<times> pyval) list"

text \<open>Python's truth value of an object (\<open>if result:\<close>, \<open>not result['ok']\<close>).\<close>

fun truthy :: "pyval \<Rightarrow> bool" where
  "truthy PyNone = False"
| "truthy (PyBool b) = b"
| "truthy (PyInt i) = (i \<noteq> 0)"
| "truthy (PyStr s) = (s \<noteq> [])"
| "truthy (PyList xs) = (xs \<noteq> [])"
| "truthy (PyDict d) = (d \<noteq> [])"

subsection \<open>\<open>str\<close> and \<open>repr\<close>\<close>

definition hex_digit :: "nat \<Rightarrow> nat" where
  "hex_digit n = u ''0123456789abcdef'' ! (n mod 16)"

text \<open>The last \<open>k\<close> hexadecimal digits of \<open>n\<close>.\<close>

fun hex :: "nat \<Rightarrow> nat \<Rightarrow> ustring" where
  "hex 0 n = []"
| "hex (Suc k) n = hex k (n div 16) @ [hex_digit n]"

definition repr_char :: "unicode \<Rightarrow> nat \<Rightarrow> nat \<Rightarrow> ustring" where
  "repr_char U q c =
     (if c = q \<or> c = chr_backslash then [chr_backslash, c]
      else if c = chr_tab then chr_backslash # u ''t''
      else if c = chr_lf then chr_backslash # u ''n''
      else if c = chr_cr then chr_backslash # u ''r''
      else if printable U c then [c]
      else if c < 256 then chr_backslash # u ''x'' @ hex 2 c
      else if c < 65536 then chr_backslash # u ''u'' @ hex 4 c
      else chr_backslash # u ''U'' @ hex 8 c)"

definition repr_str :: "unicode \<Rightarrow> ustring \<Rightarrow> ustring" where
  "repr_str U s =
     (let q = (if chr_quote \<in> set s \<and> chr_dquote \<notin> set s then chr_dquote else chr_quote)
      in q # concat (map (repr_char U q) s) @ [q])"

definition digit_char :: "nat \<Rightarrow> nat" where
  "digit_char n = u ''0123456789'' ! (n mod 10)"

function str_nat :: "nat \<Rightarrow> ustring" where
  "str_nat n = (if n < 10 then [digit_char n] else str_nat (n div 10) @ [digit_char n])"
  by pat_completeness auto
termination
  by (relation "measure id") auto

declare str_nat.simps [simp del]

definition str_int :: "int \<Rightarrow> ustring" where
  "str_int i = (if i < 0 then u ''-'' @ str_nat (nat (- i)) else str_nat (nat i))"

fun join :: "ustring \<Rightarrow> ustring list \<Rightarrow> ustring" where
  "join sep [] = []"
| "join sep [x] = x"
| "join sep (x # y # ys) = x @ sep @ join sep (y # ys)"

fun py_repr :: "unicode \<Rightarrow> pyval \<Rightarrow> ustring" where
  "py_repr U PyNone = u ''None''"
| "py_repr U (PyBool b) = (if b then u ''True'' else u ''False'')"
| "py_repr U (PyInt i) = str_int i"
| "py_repr U (PyStr s) = repr_str U s"
| "py_repr U (PyList xs) = u ''['' @ join (u '', '') (map (py_repr U) xs) @ u '']''"
| "py_repr U (PyDict d) =
     u ''{'' @ join (u '', '')
       (map (\<lambda>kv. repr_str U (fst kv) @ u '': '' @ py_repr U (snd kv)) d) @ u ''}''"

definition py_str :: "unicode \<Rightarrow> pyval \<Rightarrow> ustring" where
  "py_str U v = (case v of PyStr s \<Rightarrow> s | _ \<Rightarrow> py_repr U v)"

subsection \<open>Exceptions\<close>

text \<open>
  The source raises plain \<open>Exception\<close> objects with a message; the interpreter raises
  \<open>KeyError\<close> for a missing dict key and \<open>TypeError\<close> for a bad call or a non-string
  handed to \<open>re.match\<close>. Every raise is a value \<open>Inl e\<close>.
\<close>

datatype pyexc = Exception ustring | KeyError ustring | TypeError ustring

fun exc_str :: "unicode \<Rightarrow> pyexc \<Rightarrow> ustring" where
  "exc_str U (Exception s) = s"
| "exc_str U (KeyError k) = repr_str U k"
| "exc_str U (TypeError s) = s"

definition quoted :: "ustring \<Rightarrow> ustring" where
  "quoted s = chr_quote # s @ [chr_quote]"

text \<open>
  \<open>v[k]\<close> for a string \<open>k\<close>. The messages of the interpreter's own errors are those of
  CPython 3.7.
\<close>

fun py_getitem :: "pyval \<Rightarrow> ustring \<Rightarrow> pyexc + pyval" where
  "py_getitem (PyDict d) k = (case map_of d k of None \<Rightarrow> Inl (KeyError k) | Some x \<Rightarrow> Inr x)"
| "py_getitem (PyStr s) k = Inl (TypeError (u ''string indices must be integers''))"
| "py_getitem (PyList xs) k =
     Inl (TypeError (u ''list indices must be integers or slices, not str''))"
| "py_getitem PyNone k = Inl (TypeError (quoted (u ''NoneType'') @ u '' object is not subscriptable''))"
| "py_getitem (PyBool b) k = Inl (TypeError (quoted (u ''bool'') @ u '' object is not subscriptable''))"
| "py_getitem (PyInt i) k = Inl (TypeError (quoted (u ''int'') @ u '' object is not subscriptable''))"

section \<open>Regular expressions\<close>

text \<open>
  \<open>re.match\<close> is Python's backtracking matcher, anchored at the start of the text. The
  patterns are kept as syntax trees over the constructs the source's own patterns use:
  a literal character, \<open>.\<close>, \<open>\w\<close>, \<open>\s\<close>, sequence, alternation, a greedy star over a
  one-character pattern, and a capturing group. The matcher returns every way to match,
  (rest of the text, captures) in the order the backtracking search tries them, so the
  head of the list is the match \<open>re.match\<close> reports. Groups are numbered by their opening
  parenthesis, left to right.
\<close>

datatype atom = Chr nat | Dot | Word | Space

datatype regex =
    Atom atom
  | Eps
  | Seq regex regex
  | Alt regex regex
  | Star atom
  | Group regex

text \<open>\<open>ic\<close> is the flag \<open>re.IGNORECASE\<close>.\<close>

fun atom_match :: "unicode \<Rightarrow> bool \<Rightarrow> atom \<Rightarrow> nat \<Rightarrow> bool" where
  "atom_match U ic (Chr c) x = (if ic then ieq U c x else x = c)"
| "atom_match U ic Dot x = (x \<noteq> chr_lf)"
| "atom_match U ic Word x = is_word U x"
| "atom_match U ic Space x = is_space U x"

type_synonym caps = "ustring option list"

fun ngroups :: "regex \<Rightarrow> nat" where
  "ngroups (Atom a) = 0"
| "ngroups Eps = 0"
| "ngroups (Seq r1 r2) = ngroups r1 + ngroups r2"
| "ngroups (Alt r1 r2) = ngroups r1 + ngroups r2"
| "ngroups (Star a) = 0"
| "ngroups (Group r) = Suc (ngroups r)"

fun ms :: "unicode \<Rightarrow> bool \<Rightarrow> regex \<Rightarrow> nat \<Rightarrow> ustring \<times> caps \<Rightarrow> (ustring \<times> caps) list" where
  "ms U ic (Atom a) i (s, c) =
     (case s of [] \<Rightarrow> [] | x # t \<Rightarrow> if atom_match U ic a x then [(t, c)] else [])"
| "ms U ic Eps i (s, c) = [(s, c)]"
| "ms U ic (Seq r1 r2) i (s, c) =
     concat (map (ms U ic r2 (i + ngroups r1)) (ms U ic r1 i (s, c)))"
| "ms U ic (Alt r1 r2) i (s, c) = ms U ic r1 i (s, c) @ ms U ic r2 (i + ngroups r1) (s, c)"
| "ms U ic (Star a) i (s, c) =
     map (\<lambda>k. (drop k s, c)) (rev [0 ..< Suc (length (takeWhile (atom_match U ic a) s))])"
| "ms U ic (Group r) i (s, c) =
     map (\<lambda>tc. (fst tc, (snd tc)[i := Some (take (length s - length (fst tc)) s)]))
       (ms U ic r (Suc i) (s, c))"

text \<open>\<open>re.match(regex, text, flags).groups()\<close>, or \<open>None\<close> when there is no match.\<close>

definition re_match :: "unicode \<Rightarrow> regex \<Rightarrow> bool \<Rightarrow> ustring \<Rightarrow> caps option" where
  "re_match U r ic text =
     (case ms U ic r 0 (text, replicate (ngroups r) None) of
        [] \<Rightarrow> None
      | tc # _ \<Rightarrow> Some (snd tc))"

definition lit :: "ustring \<Rightarrow> regex" where
  "lit s = foldr (\<lambda>c r. Seq (Atom (Chr c)) r) s Eps"

definition Opt :: "regex \<Rightarrow> regex" where
  "Opt r = Alt r Eps"

definition Plus :: "atom \<Rightarrow> regex" where
  "Plus a = Seq (Atom a) (Star a)"

section \<open>The world: calls to the Slack client\<close>

text \<open>
  The only effect of the dispatch core is \<open>sc.api_call(method, **args)\<close>. The world is the
  list of the calls made so far, oldest first. The Slack client of a message answers a
  call from the calls before it; it may raise, and its answer is any Python value.
\<close>

record api_call =
  api_method :: ustring
  api_args :: pydict

type_synonym world = "api_call list"

type_synonym 'a result = "(pyexc + 'a) \<times> world"

type_synonym client = "world \<Rightarrow> api_call \<Rightarrow> pyexc + pyval"

section \<open>Message\<close>

record message =
  body :: pydict
  sc :: client

definition is_text_message :: "message \<Rightarrow> bool" where
  "is_text_message msg =
     (if map_of (body msg) (u ''type'') \<noteq> Some (PyStr (u ''message'')) then False
      else if map_of (body msg) (u ''text'') = None then False
      else True)"

definition channel_id :: "message \<Rightarrow> pyexc + pyval" where
  "channel_id msg =
     (case map_of (body msg) (u ''channel'') of
        None \<Rightarrow> Inl (KeyError (u ''channel''))
      | Some v \<Rightarrow> Inr v)"

text \<open>
  \<open>Message.reply(text, **kwargs)\<close>: the call is appended to the world as soon as it is
  made, whatever the client answers.
\<close>

definition reply :: "unicode \<Rightarrow> message \<Rightarrow> pyval \<Rightarrow> pydict \<Rightarrow> world \<Rightarrow> unit result" where
  "reply U msg text kwargs w =
     (let args1 = AList.update (u ''text'') text kwargs in
      case channel_id msg of
        Inl e \<Rightarrow> (Inl e, w)
      | Inr ch \<Rightarrow>
          (let args2 = AList.update (u ''channel'') ch args1;
               args3 = (case map_of (body msg) (u ''thread_ts'') of
                          Some ts \<Rightarrow> AList.update (u ''thread_ts'') ts args2
                        | None \<Rightarrow> args2);
               call = \<lparr>api_method = u ''chat.postMessage'', api_args = args3\<rparr>
           in case sc msg w call of
                Inl e \<Rightarrow> (Inl e, w @ [call])
              | Inr res \<Rightarrow>
                  (case py_getitem res (u ''ok'') of
                     Inl e \<Rightarrow> (Inl e, w @ [call])
                   | Inr ok \<Rightarrow>
                       if \<not> truthy ok then (Inl (Exception (py_str U res)), w @ [call])
                       else (Inr (), w @ [call]))))"

text \<open>
  \<open>msg.reply(**result)\<close>: the keys of the dict are bound to the parameters of
  \<open>reply(self, text, **kwargs)\<close>. A key \<open>self\<close> collides with the bound receiver, a missing
  \<open>text\<close> leaves the positional parameter unbound; both are a \<open>TypeError\<close> of the call.
\<close>

definition reply_kw :: "unicode \<Rightarrow> message \<Rightarrow> pydict \<Rightarrow> world \<Rightarrow> unit result" where
  "reply_kw U msg d w =
     (if map_of d (u ''self'') \<noteq> None
      then (Inl (TypeError (u ''reply() got multiple values for argument '' @ quoted (u ''self''))), w)
      else case map_of d (u ''text'') of
             None \<Rightarrow>
               (Inl (TypeError (u ''reply() missing 1 required positional argument: '' @
                  quoted (u ''text''))), w)
           | Some t \<Rightarrow> reply U msg t (AList.delete (u ''text'') d) w)"

section \<open>Listener\<close>

text \<open>
  A handler is code of the bot's author: called with the message and the captured
  groups, it may change the world (reply by itself), raise, or return a value.
\<close>

type_synonym handler = "message \<Rightarrow> pyval list \<Rightarrow> world \<Rightarrow> pyval result"

record listener =
  regex :: regex
  f :: handler
  mention_only :: bool

definition match :: "unicode \<Rightarrow> listener \<Rightarrow> ustring \<Rightarrow> caps option" where
  "match U l text = re_match U (regex l) True text"

text \<open>\<open>match.groups()\<close>: a group that took no part in the match is \<open>None\<close>.\<close>

definition groups :: "caps \<Rightarrow> pyval list" where
  "groups m = map (\<lambda>g. case g of None \<Rightarrow> PyNone | Some s \<Rightarrow> PyStr s) m"

definition process :: "unicode \<Rightarrow> listener \<Rightarrow> message \<Rightarrow> caps \<Rightarrow> world \<Rightarrow> unit result" where
  "process U l msg m w =
     (case f l msg (groups m) w of
        (Inl e, w') \<Rightarrow> (Inl e, w')
      | (Inr res, w') \<Rightarrow>
          (case res of
             PyStr s \<Rightarrow> reply U msg res [] w'
           | PyDict d \<Rightarrow> reply_kw U msg d w'
           | _ \<Rightarrow>
               if truthy res
               then (Inl (Exception (u ''Bad listener result: '' @ py_str U res)), w')
               else (Inr (), w')))"

section \<open>Dispatcher\<close>

type_synonym action_handler = "pydict \<Rightarrow> pyval list \<Rightarrow> world \<Rightarrow> pyval result"

type_synonym command_handler = "pydict \<Rightarrow> world \<Rightarrow> pyval result"

record action =
  a_regex :: regex
  a_f :: action_handler

record dispatcher =
  listeners :: "listener list"
  actions :: "action list"
  commands :: "ustring \<rightharpoonup> command_handler"
  alt_names :: "ustring list"
  bot_id :: ustring

definition Dispatcher :: "ustring \<Rightarrow> ustring list \<Rightarrow> dispatcher" where
  "Dispatcher b names =
     \<lparr>listeners = [], actions = [], commands = Map.empty, alt_names = names, bot_id = b\<rparr>"

definition register_listener :: "dispatcher \<Rightarrow> listener \<Rightarrow> dispatcher" where
  "register_listener d l = d\<lparr>listeners := listeners d @ [l]\<rparr>"

definition register_action :: "dispatcher \<Rightarrow> regex \<Rightarrow> action_handler \<Rightarrow> dispatcher" where
  "register_action d r h = d\<lparr>actions := actions d @ [\<lparr>a_regex = r, a_f = h\<rparr>]\<rparr>"

definition register_command ::
  "dispatcher \<Rightarrow> ustring \<Rightarrow> command_handler \<Rightarrow> pyexc + dispatcher" where
  "register_command d name h =
     (if commands d name \<noteq> None then Inl (Exception (u ''Duplicate command '' @ name))
      else Inr (d\<lparr>commands := (commands d)(name \<mapsto> h)\<rparr>))"

text \<open>
  The loop of \<open>process_action\<close>; the code after the loop is the case of the empty list.
  \<open>payload['callback_id']\<close> is read inside the loop, so a payload without it raises only
  when an action is registered.
\<close>

fun process_action_loop :: "unicode \<Rightarrow> action list \<Rightarrow> pydict \<Rightarrow> world \<Rightarrow> pyval result" where
  "process_action_loop U [] payload w = (Inl (Exception (u ''unknown action'')), w)"
| "process_action_loop U (a # as) payload w =
     (case map_of payload (u ''callback_id'') of
        None \<Rightarrow> (Inl (KeyError (u ''callback_id'')), w)
      | Some (PyStr cid) \<Rightarrow>
          (case re_match U (a_regex a) False cid of
             None \<Rightarrow> process_action_loop U as payload w
           | Some m \<Rightarrow> a_f a payload (groups m) w)
      | Some _ \<Rightarrow> (Inl (TypeError (u ''expected string or bytes-like object'')), w))"

definition process_action :: "unicode \<Rightarrow> dispatcher \<Rightarrow> pydict \<Rightarrow> world \<Rightarrow> pyval result" where
  "process_action U d payload w = process_action_loop U (actions d) payload w"

text \<open>The pattern \<open><@(\w+)>,?\s*(.*)\<close>.\<close>

definition mention_regex :: regex where
  "mention_regex =
     Seq (lit (u ''<@''))
       (Seq (Group (Plus Word))
         (Seq (Atom (Chr chr_gt))
           (Seq (Opt (Atom (Chr chr_comma)))
             (Seq (Star Space) (Group (Star Dot))))))"

text \<open>
  \<open>'(?:' + '|'.join([re.escape(name) for name in alt_names]) + ')' + r',\s*(.*)'\<close>; an
  escaped name matches itself, character by character.
\<close>

fun alts :: "regex list \<Rightarrow> regex" where
  "alts [] = Eps"
| "alts [r] = r"
| "alts (r # r' # rs) = Alt r (alts (r' # rs))"

definition alt_names_regex :: "ustring list \<Rightarrow> regex" where
  "alt_names_regex names =
     Seq (alts (map lit names))
       (Seq (Atom (Chr chr_comma)) (Seq (Star Space) (Group (Star Dot))))"

definition parse_mention :: "unicode \<Rightarrow> dispatcher \<Rightarrow> ustring \<Rightarrow> bool \<times> ustring" where
  "parse_mention U d text =
     (case (case re_match U mention_regex False text of
              Some [Some user_id, Some short_text] \<Rightarrow>
                if user_id = bot_id d then Some (True, short_text) else None
            | _ \<Rightarrow> None) of
        Some r \<Rightarrow> r
      | None \<Rightarrow>
          (case (if alt_names d \<noteq> []
                 then (case re_match U (alt_names_regex (alt_names d)) True text of
                         Some [Some t] \<Rightarrow> Some (True, t)
                       | _ \<Rightarrow> None)
                 else None) of
             Some r \<Rightarrow> r
           | None \<Rightarrow> (False, text)))"

text \<open>
  The text of the reply when nothing matched: the code points of the Russian literal of
  the source (\<open>I do not understand.\<close>).
\<close>

definition dont_understand :: ustring where
  "dont_understand =
     [1053, 1077, 32, 1087, 1086, 1085, 1080, 1084, 1072, 1102, 46]"

text \<open>
  The loop over the listeners of \<open>Dispatcher.process_message\<close>; the code after the loop
  is the case of the empty list.
\<close>

fun process_message_loop ::
  "unicode \<Rightarrow> listener list \<Rightarrow> bool \<Rightarrow> bool \<Rightarrow> ustring \<Rightarrow> message \<Rightarrow> world \<Rightarrow> unit result" where
  "process_message_loop U [] mentioned direct text msg w =
     (if mentioned \<or> direct then reply U msg (PyStr dont_understand) [] w else (Inr (), w))"
| "process_message_loop U (l # ls) mentioned direct text msg w =
     (if mention_only l \<and> (\<not> mentioned \<and> \<not> direct)
      then process_message_loop U ls mentioned direct text msg w
      else case match U l text of
             None \<Rightarrow> process_message_loop U ls mentioned direct text msg w
           | Some m \<Rightarrow> process U l msg m w)"

definition process_message :: "unicode \<Rightarrow> dispatcher \<Rightarrow> message \<Rightarrow> world \<Rightarrow> unit result" where
  "process_message U d msg w =
     (if \<not> is_text_message msg then (Inr (), w)
      else case map_of (body msg) (u ''text'') of
             Some (PyStr text0) \<Rightarrow>
               (let mentioned = fst (parse_mention U d text0);
                    text = snd (parse_mention U d text0)
                in case map_of (body msg) (u ''channel_type'') of
                     None \<Rightarrow> (Inl (KeyError (u ''channel_type'')), w)
                   | Some ct \<Rightarrow>
                       process_message_loop U (listeners d) mentioned (ct = PyStr (u ''app_home''))
                         text msg w)
           | _ \<Rightarrow> (Inl (TypeError (u ''expected string or bytes-like object'')), w))"

text \<open>
  \<open>command not in self.commands\<close> hashes the command: a list or a dict cannot be a key.
\<close>

definition process_command :: "unicode \<Rightarrow> dispatcher \<Rightarrow> pydict \<Rightarrow> world \<Rightarrow> pyval result" where
  "process_command U d payload w =
     (case map_of payload (u ''command'') of
        None \<Rightarrow> (Inl (KeyError (u ''command'')), w)
      | Some c \<Rightarrow>
          (case c of
             PyStr name \<Rightarrow>
               (case commands d name of
                  None \<Rightarrow> (Inl (Exception (u ''Command '' @ name @ u '' not found'')), w)
                | Some h \<Rightarrow> h payload w)
           | PyList xs \<Rightarrow> (Inl (TypeError (u ''unhashable type: '' @ quoted (u ''list''))), w)
           | PyDict kvs \<Rightarrow> (Inl (TypeError (u ''unhashable type: '' @ quoted (u ''dict''))), w)
           | _ \<Rightarrow> (Inl (Exception (u ''Command '' @ py_str U c @ u '' not found'')), w)))"

section \<open>Bot\<close>

text \<open>
  Of the bot, the client, the dispatcher and the hook \<open>cleanup_on_exception\<close>, which a
  subclass overrides: any code that may change the world or raise.
\<close>

record bot =
  b_sc :: client
  b_dispatcher :: dispatcher
  cleanup_on_exception :: "world \<Rightarrow> unit result"

text \<open>
  The text before the error in the error reply: the code points of the Russian literal
  of the source (\<open>Something went wrong:\<close>, a space and three backquotes).
\<close>

definition went_wrong :: ustring where
  "went_wrong =
     [1063, 1090, 1086, 45, 1090, 1086, 32, 1087, 1086, 1096, 1083, 1086,
      32, 1085, 1077, 32, 1090, 1072, 1082, 58, 32, 96, 96, 96]"

definition bot_process_message :: "unicode \<Rightarrow> bot \<Rightarrow> pydict \<Rightarrow> world \<Rightarrow> unit result" where
  "bot_process_message U b raw w =
     (if map_of raw (u ''bot_id'') \<noteq> None then (Inr (), w)
      else
        (let msg = \<lparr>body = raw, sc = b_sc b\<rparr> in
         case process_message U (b_dispatcher b) msg w of
           (Inr r, w') \<Rightarrow> (Inr (), w')
         | (Inl e, w') \<Rightarrow>
             (case cleanup_on_exception b w' of
                (Inl e', w'') \<Rightarrow> (Inl e', w'')
              | (Inr r, w'') \<Rightarrow>
                  reply U msg (PyStr (went_wrong @ exc_str U e @ u ''```'')) [] w'')))"

section \<open>What the two mention patterns match, without regular expressions\<close>

text \<open>
  The functions of this section say, on the text itself, what the two patterns of
  \<open>parse_mention\<close> do. They are not taken from the source; the source's \<open>parse_mention\<close>
  is proved equal to them below.
\<close>

text \<open>\<open>\s*(.*)\<close>: the white space is dropped, the group is the text up to the first line feed.\<close>

definition residual :: "unicode \<Rightarrow> ustring \<Rightarrow> ustring" where
  "residual U s = takeWhile (\<lambda>x. x \<noteq> chr_lf) (dropWhile (is_space U) s)"

definition opt_comma :: "ustring \<Rightarrow> ustring" where
  "opt_comma s = (if take 1 s = [chr_comma] then drop 1 s else s)"

text \<open>
  The explicit form: \<open><@\<close>, a non-empty run of word characters (the user id), \<open>>\<close>, an
  optional comma. The result is the user id and the residual text.
\<close>

definition spec_explicit_mention :: "unicode \<Rightarrow> ustring \<Rightarrow> (ustring \<times> ustring) option" where
  "spec_explicit_mention U text =
     (if take 2 text = u ''<@'' \<and> takeWhile (is_word U) (drop 2 text) \<noteq> []
         \<and> take 1 (dropWhile (is_word U) (drop 2 text)) = [chr_gt]
      then Some (takeWhile (is_word U) (drop 2 text),
                 residual U (opt_comma (drop 1 (dropWhile (is_word U) (drop 2 text)))))
      else None)"

text \<open>\<open>p\<close> starts \<open>s\<close>, letter case ignored.\<close>

definition ci_prefix :: "unicode \<Rightarrow> ustring \<Rightarrow> ustring \<Rightarrow> bool" where
  "ci_prefix U p s = (length p \<le> length s \<and> list_all2 (ieq U) p (take (length p) s))"

text \<open>
  The alternate-name form: the first configured name that starts the text, letter case
  ignored, and is followed by a comma. The result is the residual text after the comma.
\<close>

definition spec_alt_mention :: "unicode \<Rightarrow> ustring list \<Rightarrow> ustring \<Rightarrow> ustring option" where
  "spec_alt_mention U names text =
     (case find (\<lambda>n. ci_prefix U n text \<and> take 1 (drop (length n) text) = [chr_comma]) names of
        None \<Rightarrow> None
      | Some n \<Rightarrow> Some (residual U (drop (Suc (length n)) text)))"

definition spec_fallback :: "unicode \<Rightarrow> ustring list \<Rightarrow> ustring \<Rightarrow> bool \<times> ustring" where
  "spec_fallback U names text =
     (case spec_alt_mention U names text of
        Some t \<Rightarrow> (True, t)
      | None \<Rightarrow> (False, text))"

definition spec_parse_mention :: "unicode \<Rightarrow> ustring \<Rightarrow> ustring list \<Rightarrow> ustring \<Rightarrow> bool \<times> ustring" where
  "spec_parse_mention U b names text =
     (case spec_explicit_mention U text of
        Some ut \<Rightarrow> if fst ut = b then (True, snd ut) else spec_fallback U names text
      | None \<Rightarrow> spec_fallback U names text)"

section \<open>Notions used to state the properties\<close>

text \<open>The head of the list of matches: the match the backtracking search finds first.\<close>

definition first_result :: "'a list \<Rightarrow> 'a option" where
  "first_result xs = (case xs of [] \<Rightarrow> None | x # _ \<Rightarrow> Some x)"

text \<open>A literal pattern matches at the start of \<open>s\<close>.\<close>

definition lit_ok :: "unicode \<Rightarrow> bool \<Rightarrow> ustring \<Rightarrow> ustring \<Rightarrow> bool" where
  "lit_ok U ic p s = (length p \<le> length s \<and>
     list_all2 (\<lambda>c x. atom_match U ic (Chr c) x) p (take (length p) s))"

text \<open>
  A listener fires on a text when the loop of \<open>process_message\<close> does not skip it (it is
  not mention-only, or the message is mentioned or direct) and its pattern matches.
\<close>

definition fires :: "unicode \<Rightarrow> bool \<Rightarrow> bool \<Rightarrow> ustring \<Rightarrow> listener \<Rightarrow> bool" where
  "fires U mentioned direct text l =
     (\<not> (mention_only l \<and> (\<not> mentioned \<and> \<not> direct)) \<and> match U l text \<noteq> None)"

text \<open>
  The registrations of a program, in order (the decorators \<open>@bot.command(name)\<close> run when
  the module is loaded); the first one that raises ends them.
\<close>

fun register_commands ::
  "dispatcher \<Rightarrow> (ustring \<times> command_handler) list \<Rightarrow> pyexc + dispatcher" where
  "register_commands d [] = Inr d"
| "register_commands d (nh # rs) =
     (case register_command d (fst nh) (snd nh) of
        Inl e \<Rightarrow> Inl e
      | Inr d' \<Rightarrow> register_commands d' rs)"

section \<open>Concrete bots\<close>

text \<open>
  For the examples, Python's tables on the letters of the Russian alphabet (\<open>0x410\<close> to
  \<open>0x44F\<close>, and the two letters \<open>0x401\<close> and \<open>0x451\<close>): they are word characters, and a
  capital matches its small letter. Any other character beyond ASCII is taken as no word
  character, no white space and without case; the examples use none.
\<close>

definition ru_lower :: "nat \<Rightarrow> nat" where
  "ru_lower c = (if 1040 \<le> c \<and> c \<le> 1071 then c + 32 else if c = 1025 then 1105 else c)"

definition russian :: unicode where
  "russian =
     \<lparr>uni_word = (\<lambda>c. (1040 \<le> c \<and> c \<le> 1103) \<or> c = 1025 \<or> c = 1105),
      uni_space = (\<lambda>c. False),
      uni_ieq = (\<lambda>c x. ru_lower x = ru_lower c),
      uni_printable = (\<lambda>c. 161 \<le> c \<and> c \<noteq> 173)\<rparr>"

text \<open>A Slack client that accepts every call, and a handler that only returns a value.\<close>

definition ok_client :: client where
  "ok_client w call = Inr (PyDict [(u ''ok'', PyBool True)])"

definition returns :: "pyval \<Rightarrow> handler" where
  "returns v msg gs w = (Inr v, w)"

definition no_cleanup :: "world \<Rightarrow> unit result" where
  "no_cleanup w = (Inr (), w)"

text \<open>A text message in channel \<open>C1\<close>, of the given channel type.\<close>

definition text_event :: "ustring \<Rightarrow> ustring \<Rightarrow> pydict" where
  "text_event text ct =
     [(u ''type'', PyStr (u ''message'')), (u ''text'', PyStr text), (u ''channel'', PyStr (u ''C1'')),
      (u ''channel_type'', PyStr ct), (u ''user'', PyStr (u ''U777'')), (u ''ts'', PyStr (u ''1.5''))]"

definition text_message :: "ustring \<Rightarrow> ustring \<Rightarrow> message" where
  "text_message text ct = \<lparr>body = text_event text ct, sc = ok_client\<rparr>"

definition hi_listener :: "pyval \<Rightarrow> bool \<Rightarrow> listener" where
  "hi_listener v mo = \<lparr>regex = lit (u ''hi''), f = returns v, mention_only = mo\<rparr>"

definition two_listeners :: dispatcher where
  "two_listeners =
     register_listener
       (register_listener (Dispatcher (u ''U123'') [u ''bob'']) (hi_listener (PyStr (u ''one'')) True))
       (hi_listener (PyStr (u ''two'')) False)"

definition approve_action :: dispatcher where
  "approve_action =
     register_action (Dispatcher (u ''U123'') []) (lit (u ''approve'')) (\<lambda>payload gs w. (Inr (PyStr (u ''done'')), w))"

text \<open>A dispatcher with the command \<open>/deploy\<close>, and a bot whose only handler returns \<open>5\<close>.\<close>

definition deploy_command :: dispatcher where
  "deploy_command =
     (Dispatcher (u ''U123'') [])\<lparr>commands := [u ''/deploy'' \<mapsto> (\<lambda>payload w. (Inr (PyStr (u ''done'')), w))]\<rparr>"

definition bad_bot :: bot where
  "bad_bot =
     \<lparr>b_sc = ok_client,
      b_dispatcher = register_listener (Dispatcher (u ''U123'') []) (hi_listener (PyInt 5) False),
      cleanup_on_exception = no_cleanup\<rparr>"

section \<open>The matcher on the patterns of the source\<close>

declare ms.simps [simp del]

lemma u_eq_iff [simp]: "u a = u b \<longleftrightarrow> a = b"
  by (simp add: u_def ord_def inj_map_eq_map inj_def)

lemma u_lt_at: "u ''<@'' = [60, 64]"
  by (simp add: u_def ord_def)

lemma u_append: "u a @ u b = u (a @ b)"
  by (simp add: u_def)

lemma length_u [simp]: "length (u a) = length a"
  by (simp add: u_def)

lemma first_Nil [simp]: "first_result [] = None"
  by (simp add: first_result_def)

lemma first_Cons [simp]: "first_result (x # xs) = Some x"
  by (simp add: first_result_def)

lemma first_append: "first_result (xs @ ys) = (case first_result xs of Some x \<Rightarrow> Some x | None \<Rightarrow> first_result ys)"
  by (cases xs) simp_all

lemma first_map: "first_result (map g xs) = map_option g (first_result xs)"
  by (cases xs) simp_all

lemma first_SomeD: "first_result xs = Some x \<Longrightarrow> \<exists>ys. xs = x # ys"
  by (cases xs) simp_all

lemma first_concat_map:
  "first_result xs = Some x \<Longrightarrow> first_result (g x) = Some y \<Longrightarrow> first_result (concat (map g xs)) = Some y"
  by (auto dest!: first_SomeD simp: first_append)

lemma concat_map_nil: "(\<And>x. x \<in> set xs \<Longrightarrow> g x = []) \<Longrightarrow> concat (map g xs) = []"
  by (induction xs) auto

lemma re_match_first: "re_match U r ic text = map_option snd (first_result (ms U ic r 0 (text, replicate (ngroups r) None)))"
  by (simp add: re_match_def first_result_def split: list.splits)

lemma rev_upt_Suc: "rev [0 ..< Suc n] = n # rev [0 ..< n]"
  by simp

lemma ms_Star_Cons:
  "ms U ic (Star a) i (s, c) =
     (dropWhile (atom_match U ic a) s, c) #
       map (\<lambda>k. (drop k s, c)) (rev [0 ..< length (takeWhile (atom_match U ic a) s)])"
  by (simp add: dropWhile_eq_drop ms.simps(5))

lemma first_Star: "first_result (ms U ic (Star a) i (s, c)) = Some (dropWhile (atom_match U ic a) s, c)"
  by (simp only: ms_Star_Cons first_Nil first_Cons)

lemma take_length_dropWhile:
  "take (length s - length (dropWhile P s)) s = takeWhile P s"
proof -
  have "length s = length (takeWhile P s) + length (dropWhile P s)"
    by (metis length_append takeWhile_dropWhile_id)
  then have "length s - length (dropWhile P s) = length (takeWhile P s)" by simp
  then show ?thesis by (simp only: takeWhile_eq_take [symmetric])
qed

lemma first_Group_Star:
  "first_result (ms U ic (Group (Star a)) i (s, c)) =
     Some (dropWhile (atom_match U ic a) s, c[i := Some (takeWhile (atom_match U ic a) s)])"
  by (simp only: ms.simps(6) first_map first_Star option.map fst_conv snd_conv take_length_dropWhile)

lemma first_Seq:
  "first_result (ms U ic r1 i st) = Some st' \<Longrightarrow> first_result (ms U ic r2 (i + ngroups r1) st') = Some st''
   \<Longrightarrow> first_result (ms U ic (Seq r1 r2) i st) = Some st''"
  by (cases st) (simp add: first_concat_map ms.simps(3))

lemma first_tail:
  "first_result (ms U ic (Seq (Star Space) (Group (Star Dot))) i (s, c)) =
     Some (dropWhile (\<lambda>x. x \<noteq> chr_lf) (dropWhile (is_space U) s), c[i := Some (residual U s)])"
proof -
  have a: "atom_match U ic Space = is_space U" "atom_match U ic Dot = (\<lambda>x. x \<noteq> chr_lf)"
    by (auto simp: fun_eq_iff)
  show ?thesis
    apply (rule first_Seq)
     apply (rule first_Star)
    apply (simp only: first_Group_Star a residual_def ngroups.simps add_0_right)
    done
qed

lemma ms_Seq_Atom:
  "ms U ic (Seq (Atom a) r) i (s, c) =
     (case s of [] \<Rightarrow> [] | x # t \<Rightarrow> if atom_match U ic a x then ms U ic r i (t, c) else [])"
  by (simp add: ms.simps(1,3) split: list.splits)

lemma not_word_gt: "\<not> is_word U chr_gt"
  by (simp add: is_word_def ascii_alpha_def)

lemma ms_Plus:
  "ms U ic (Plus a) i (s, c) =
     (case s of [] \<Rightarrow> []
      | x # t \<Rightarrow> if atom_match U ic a x
          then map (\<lambda>k. (drop k t, c)) (rev [0 ..< Suc (length (takeWhile (atom_match U ic a) t))])
          else [])"
  by (cases s) (simp_all only: Plus_def ms_Seq_Atom ms.simps(5) list.case)


lemma drop_lt_takeWhile:
  assumes "k < length (takeWhile P t)"
  shows "\<exists>y u. drop k t = y # u \<and> P y"
proof -
  from assms have kt: "k < length t"
    by (meson length_takeWhile_le less_le_trans)
  have "takeWhile P t ! k = t ! k" using assms by (rule takeWhile_nth)
  moreover have "takeWhile P t ! k \<in> set (takeWhile P t)" using assms by simp
  ultimately have "P (t ! k)" by (metis set_takeWhileD)
  moreover have "drop k t = t ! k # drop (Suc k) t" using kt by (simp add: Cons_nth_drop_Suc)
  ultimately show ?thesis by blast
qed

text \<open>After a run of word characters, only the longest run can be followed by \<open>>\<close>.\<close>

lemma ms_Group_Plus_then:
  assumes nP: "\<And>y. atom_match U ic a y \<Longrightarrow> \<not> atom_match U ic (Chr z) y"
  shows "ms U ic (Seq (Group (Plus a)) (Seq (Atom (Chr z)) r)) i (s, c) =
     (if takeWhile (atom_match U ic a) s \<noteq> []
      then ms U ic (Seq (Atom (Chr z)) r) (Suc i)
             (dropWhile (atom_match U ic a) s, c[i := Some (takeWhile (atom_match U ic a) s)])
      else [])"
proof (cases s)
  case Nil
  then show ?thesis by (simp add: ms_Plus ms.simps(3,6))
next
  case (Cons x t)
  show ?thesis
  proof (cases "atom_match U ic a x")
    case False
    then show ?thesis using Cons by (simp add: ms_Plus ms.simps(3,6))
  next
    case True
    let ?P = "atom_match U ic a"
    let ?n = "length (takeWhile ?P t)"
    let ?G = "\<lambda>k. (drop k t, c[i := Some (take (length s - length (drop k t)) s)])"
    let ?Y = "ms U ic (Seq (Atom (Chr z)) r) (Suc i)"
    have cand: "ms U ic (Group (Plus a)) i (s, c) = map ?G (rev [0 ..< Suc ?n])"
      using Cons True by (simp add: ms.simps(6) ms_Plus o_def del: upt_Suc)
    have small: "?Y (?G k) = []" if "k \<in> set (rev [0 ..< ?n])" for k
    proof -
      from that have "k < ?n" by simp
      then obtain y u where yu: "drop k t = y # u" "?P y" using drop_lt_takeWhile by blast
      with nP have "\<not> atom_match U ic (Chr z) y" by blast
      then show ?thesis using yu by (simp add: ms_Seq_Atom)
    qed
    have "ms U ic (Seq (Group (Plus a)) (Seq (Atom (Chr z)) r)) i (s, c) =
            concat (map ?Y (map ?G (rev [0 ..< Suc ?n])))"
    proof -
      have "i + ngroups (Group (Plus a)) = Suc i" by (simp add: Plus_def)
      then show ?thesis by (simp only: ms.simps(3) cand)
    qed
    also have "\<dots> = ?Y (?G ?n) @ concat (map (\<lambda>k. ?Y (?G k)) (rev [0 ..< ?n]))"
      by (simp add: o_def)
    also have "concat (map (\<lambda>k. ?Y (?G k)) (rev [0 ..< ?n])) = []"
      by (rule concat_map_nil) (rule small)
    finally have e: "ms U ic (Seq (Group (Plus a)) (Seq (Atom (Chr z)) r)) i (s, c) = ?Y (?G ?n)"
      by simp
    have d: "drop ?n t = dropWhile ?P s" using Cons True by (simp add: dropWhile_eq_drop)
    have "take (length s - length (drop ?n t)) s = takeWhile ?P s"
    proof -
      have "?n \<le> length t" by (rule length_takeWhile_le)
      then have "length s - length (drop ?n t) = Suc ?n" using Cons by simp
      then show ?thesis using Cons True by (simp add: takeWhile_eq_take [symmetric])
    qed
    then have g: "?G ?n = (dropWhile ?P s, c[i := Some (takeWhile ?P s)])"
      by (simp only: d)
    have ne: "takeWhile ?P s \<noteq> []" using Cons True by simp
    show ?thesis by (simp only: e g ne if_True not_False_eq_True)
  qed
qed


lemma atom_match_comma: "atom_match U ic (Chr chr_comma) y \<longleftrightarrow> y = chr_comma"
  by (cases ic) (simp_all add: ieq_def ascii_alpha_def)

lemma first_opt_comma_tail:
  "first_result (ms U ic (Seq (Opt (Atom (Chr chr_comma))) (Seq (Star Space) (Group (Star Dot)))) i (s, c)) =
     Some (dropWhile (\<lambda>x. x \<noteq> chr_lf) (dropWhile (is_space U) (opt_comma s)),
           c[i := Some (residual U (opt_comma s))])"
proof -
  have ng: "i + ngroups (Opt (Atom (Chr chr_comma))) = i" by (simp add: Opt_def)
  have "first_result (ms U ic (Opt (Atom (Chr chr_comma))) i (s, c)) = Some (opt_comma s, c)"
    by (cases s) (simp_all add: Opt_def opt_comma_def atom_match_comma ms.simps(1,2,4) del: atom_match.simps)
  then show ?thesis
    by (rule first_Seq) (simp only: ng first_tail)
qed

lemma lit_Nil: "lit [] = Eps"
  by (simp add: lit_def)

lemma lit_Cons: "lit (x # p) = Seq (Atom (Chr x)) (lit p)"
  by (simp add: lit_def)

lemma ngroups_lit: "ngroups (lit p) = 0"
  by (induction p) (simp_all add: lit_Nil lit_Cons)

lemma ms_lit: "ms U ic (lit p) i (s, c) = (if lit_ok U ic p s then [(drop (length p) s, c)] else [])"
proof (induction p arbitrary: s)
  case Nil
  then show ?case by (simp add: lit_Nil lit_ok_def ms.simps(2))
next
  case (Cons x p)
  show ?case
  proof (cases s)
    case Nil
    then show ?thesis by (simp add: lit_Cons lit_ok_def ms_Seq_Atom)
  next
    case (Cons y t)
    have "lit_ok U ic (x # p) (y # t) \<longleftrightarrow> atom_match U ic (Chr x) y \<and> lit_ok U ic p t"
      by (auto simp: lit_ok_def)
    then show ?thesis using Cons Cons.IH [of t]
      by (simp add: lit_Cons ms_Seq_Atom del: atom_match.simps)
  qed
qed

lemma ms_Seq_lit:
  "ms U ic (Seq (lit p) r) i (s, c) = (if lit_ok U ic p s then ms U ic r i (drop (length p) s, c) else [])"
  by (simp add: ms.simps(3) ms_lit ngroups_lit)

lemma lit_ok_False: "lit_ok U False p s \<longleftrightarrow> take (length p) s = p"
proof -
  have "list_all2 (\<lambda>c x. x = c) p q \<longleftrightarrow> q = p" for q
    by (induction p arbitrary: q) (auto simp: list_all2_Cons1)
  then have "lit_ok U False p s \<longleftrightarrow> length p \<le> length s \<and> take (length p) s = p"
    by (simp add: lit_ok_def)
  moreover have "take (length p) s = p \<Longrightarrow> length p \<le> length s"
    by (metis length_take min.cobounded1 min.commute)
  ultimately show ?thesis by blast
qed

lemma mention_regex_first:
  "first_result (ms U False mention_regex 0 (text, [None, None])) =
     map_option (\<lambda>ut. (dropWhile (\<lambda>x. x \<noteq> chr_lf)
                          (dropWhile (is_space U) (opt_comma (drop 1 (dropWhile (is_word U) (drop 2 text))))),
                        [Some (fst ut), Some (snd ut)])) (spec_explicit_mention U text)"
proof -
  let ?Z = "Seq (Opt (Atom (Chr chr_comma))) (Seq (Star Space) (Group (Star Dot)))"
  let ?Y = "Seq (Atom (Chr chr_gt)) ?Z"
  let ?r = "drop 2 text"
  let ?c1 = "[Some (takeWhile (is_word U) ?r), None]"
  have nw: "atom_match U False Word y \<Longrightarrow> \<not> atom_match U False (Chr chr_gt) y" for y
    using not_word_gt by auto
  have aw: "atom_match U False Word = is_word U" by (simp add: fun_eq_iff)
  have l2: "length (u ''<@'') = 2" by simp
  have step1: "ms U False mention_regex 0 (text, [None, None]) =
      (if take 2 text = u ''<@'' then ms U False (Seq (Group (Plus Word)) ?Y) 0 (?r, [None, None]) else [])"
    by (simp only: mention_regex_def ms_Seq_lit lit_ok_False l2)
  have step2: "ms U False (Seq (Group (Plus Word)) ?Y) 0 (?r, [None, None]) =
      (if takeWhile (is_word U) ?r \<noteq> [] then ms U False ?Y (Suc 0) (dropWhile (is_word U) ?r, ?c1) else [])"
  proof -
    have "ms U False (Seq (Group (Plus Word)) ?Y) 0 (?r, [None, None]) =
      (if takeWhile (atom_match U False Word) ?r \<noteq> []
       then ms U False ?Y (Suc 0) (dropWhile (atom_match U False Word) ?r,
              [None, None][0 := Some (takeWhile (atom_match U False Word) ?r)])
       else [])"
      by (rule ms_Group_Plus_then) (rule nw)
    then show ?thesis by (simp add: aw)
  qed
  have step3: "first_result (ms U False ?Y (Suc 0) (d, ?c1)) =
      (if take 1 d = [chr_gt] then Some (dropWhile (\<lambda>x. x \<noteq> chr_lf)
                          (dropWhile (is_space U) (opt_comma (drop 1 d))),
             [Some (takeWhile (is_word U) ?r), Some (residual U (opt_comma (drop 1 d)))]) else None)" for d
    by (cases d) (simp_all add: ms_Seq_Atom first_opt_comma_tail)
  show ?thesis
  proof (cases "take 2 text = u ''<@''")
    case False
    then show ?thesis by (simp add: step1 spec_explicit_mention_def)
  next
    case A: True
    show ?thesis
    proof (cases "takeWhile (is_word U) ?r \<noteq> []")
      case False
      then show ?thesis using A by (simp add: step1 step2 spec_explicit_mention_def)
    next
      case True
      then have "first_result (ms U False mention_regex 0 (text, [None, None])) =
          first_result (ms U False ?Y (Suc 0) (dropWhile (is_word U) ?r, ?c1))"
        using A by (simp add: step1 step2)
      then show ?thesis using A True
        by (simp only: step3 spec_explicit_mention_def) simp
    qed
  qed
qed

lemma mention_regex_groups:
  "re_match U mention_regex False text =
     map_option (\<lambda>ut. [Some (fst ut), Some (snd ut)]) (spec_explicit_mention U text)"
proof -
  have "ngroups mention_regex = Suc (Suc 0)"
    by (simp add: mention_regex_def Plus_def Opt_def ngroups_lit)
  then have rep: "replicate (ngroups mention_regex) None = [None, None]" by simp
  have "re_match U mention_regex False text =
          map_option snd (first_result (ms U False mention_regex 0 (text, [None, None])))"
    by (simp only: re_match_first rep)
  also have "\<dots> = map_option (\<lambda>ut. [Some (fst ut), Some (snd ut)]) (spec_explicit_mention U text)"
    by (simp only: mention_regex_first) (simp add: option.map_comp o_def)
  finally show ?thesis .
qed


lemma ngroups_alts_lit: "ngroups (alts (map lit names)) = 0"
  by (induction names rule: induct_list012) (simp_all add: ngroups_lit)

lemma ms_alts_lit:
  "names \<noteq> [] \<Longrightarrow> ms U ic (alts (map lit names)) i (s, c) =
     concat (map (\<lambda>n. if lit_ok U ic n s then [(drop (length n) s, c)] else []) names)"
proof (induction names rule: induct_list012)
  case 1
  then show ?case by simp
next
  case (2 n)
  then show ?case by (simp add: ms_lit)
next
  case (3 n n' ns)
  then show ?case by (simp add: ms.simps(4) ms_lit ngroups_lit)
qed

lemma lit_ok_True: "lit_ok U True p s \<longleftrightarrow> ci_prefix U p s"
  by (simp add: lit_ok_def ci_prefix_def)

lemma first_comma_tail:
  "first_result (ms U ic (Seq (Atom (Chr chr_comma)) (Seq (Star Space) (Group (Star Dot)))) i (s, c)) =
     (if take 1 s = [chr_comma] then
        Some (dropWhile (\<lambda>x. x \<noteq> chr_lf) (dropWhile (is_space U) (drop 1 s)),
              c[i := Some (residual U (drop 1 s))])
      else None)"
  by (cases s) (simp_all add: ms_Seq_Atom atom_match_comma first_tail del: atom_match.simps)

lemma first_alt_names:
  "first_result (concat (map (ms U True (Seq (Atom (Chr chr_comma)) (Seq (Star Space) (Group (Star Dot)))) 0)
       (concat (map (\<lambda>n. if lit_ok U True n s then [(drop (length n) s, [None])] else []) names)))) =
     map_option (\<lambda>n. (dropWhile (\<lambda>x. x \<noteq> chr_lf) (dropWhile (is_space U) (drop (Suc (length n)) s)),
                     [Some (residual U (drop (Suc (length n)) s))]))
       (find (\<lambda>n. ci_prefix U n s \<and> take 1 (drop (length n) s) = [chr_comma]) names)"
proof (induction names)
  case Nil
  then show ?case by simp
next
  case (Cons n ns)
  then show ?case
    by (simp add: first_append first_comma_tail lit_ok_True)
qed

lemma alt_names_regex_groups:
  assumes "names \<noteq> []"
  shows "re_match U (alt_names_regex names) True text =
     map_option (\<lambda>t. [Some t]) (spec_alt_mention U names text)"
proof -
  have "ngroups (alt_names_regex names) = Suc 0"
    by (simp add: alt_names_regex_def ngroups_alts_lit)
  then have rep: "replicate (ngroups (alt_names_regex names)) None = [None]" by simp
  have "ms U True (alt_names_regex names) 0 (text, [None]) =
      concat (map (ms U True (Seq (Atom (Chr chr_comma)) (Seq (Star Space) (Group (Star Dot)))) 0)
       (concat (map (\<lambda>n. if lit_ok U True n text then [(drop (length n) text, [None])] else []) names)))"
    using assms by (simp add: alt_names_regex_def ms.simps(3) ms_alts_lit ngroups_alts_lit)
  then have "re_match U (alt_names_regex names) True text =
     map_option snd (map_option (\<lambda>n. (dropWhile (\<lambda>x. x \<noteq> chr_lf) (dropWhile (is_space U) (drop (Suc (length n)) text)),
                     [Some (residual U (drop (Suc (length n)) text))]))
       (find (\<lambda>n. ci_prefix U n text \<and> take 1 (drop (length n) text) = [chr_comma]) names))"
    by (simp only: re_match_first rep first_alt_names)
  then show ?thesis
    by (simp add: spec_alt_mention_def option.map_comp o_def split: option.splits)
qed

lemma spec_alt_mention_Nil: "spec_alt_mention U [] text = None"
  by (simp add: spec_alt_mention_def)

section \<open>Mention parsing\<close>

text \<open>
  C2, as amended, for every text (any code points) and every Unicode table.
  \<open>parse_mention\<close> tries the explicit form first and falls back to the
  alternate names. A leading \<open><@id>\<close> whose id is the bot's gives \<open>mentioned = True\<close>; the
  text kept for rule matching is what follows the token, an optional comma and white
  space, up to the first line feed only. With any other id, or no token, the first
  configured name that starts the text (letter case ignored) and is followed by a comma
  gives \<open>mentioned = True\<close> and the text after the comma and white space, again up to the
  first line feed; white space after the comma is not required. Otherwise the result is
  \<open>mentioned = False\<close> and the text unchanged.
\<close>

theorem parse_mention_by_cases:
  "parse_mention U d text = spec_parse_mention U (bot_id d) (alt_names d) text"
proof (cases "alt_names d = []")
  case True
  then show ?thesis
    by (cases "spec_explicit_mention U text")
       (auto simp: parse_mention_def spec_parse_mention_def spec_fallback_def
          mention_regex_groups spec_alt_mention_Nil)
next
  case False
  then show ?thesis
    by (cases "spec_explicit_mention U text"; cases "spec_alt_mention U (alt_names d) text")
       (auto simp: parse_mention_def spec_parse_mention_def spec_fallback_def
          mention_regex_groups alt_names_regex_groups)
qed

text \<open>
  C2, as stated, fails on a text of two lines: the text after the mention is
  \<open>hello\<close>, a line feed, \<open>world\<close>, and only \<open>hello\<close> is kept.
\<close>

theorem parse_mention_drops_second_line:
  "parse_mention russian (Dispatcher (u ''U123'') [u ''bob'']) (u ''<@U123> hello'' @ [chr_lf] @ u ''world'')
     = (True, (u ''hello''))"
  by code_simp

text \<open>
  The examples of the specification, and two more: white space after the comma is not
  needed, and a name must be followed by the comma at once.
\<close>

lemma parse_mention_examples:
  "parse_mention russian (Dispatcher (u ''U123'') [u ''bob'']) (u ''<@U123> hello'') =
     (True, u ''hello'')
   \<and> parse_mention russian (Dispatcher (u ''U123'') [u ''bob'']) (u ''<@U999> hello'') =
     (False, u ''<@U999> hello'')
   \<and> parse_mention russian (Dispatcher (u ''U123'') [u ''bob'']) (u ''Bob, hello'') =
     (True, u ''hello'')
   \<and> parse_mention russian (Dispatcher (u ''U123'') [u ''bob'']) (u ''Bob,hello'') =
     (True, u ''hello'')
   \<and> parse_mention russian (Dispatcher (u ''U123'') [u ''bob'']) (u ''bobby, hello'') =
     (False, u ''bobby, hello'')"
  by code_simp

text \<open>
  The same in Russian: the name \<open>0x431 0x43E 0x431\<close>, written in the text with a capital
  \<open>0x411\<close>, a comma, a space and the six letters of a greeting.
\<close>

lemma parse_mention_russian:
  "parse_mention russian (Dispatcher (u ''U123'') [[1073, 1086, 1073]])
     ([1041, 1086, 1073] @ u '', '' @ [1087, 1088, 1080, 1074, 1077, 1090]) =
     (True, [1087, 1088, 1080, 1074, 1077, 1090])
   \<and> parse_mention russian (Dispatcher (u ''U123'') [[1073, 1086, 1073]])
     (u ''<@U123> '' @ [1087, 1088, 1080, 1074, 1077, 1090]) =
     (True, [1087, 1088, 1080, 1074, 1077, 1090])"
  by code_simp

section \<open>The reply and the loops\<close>

lemma reply_sends:
  assumes "map_of (body msg) (u ''channel'') = Some ch"
  shows "\<exists>a. snd (reply U msg t kwargs w) =
                w @ [\<lparr>api_method = u ''chat.postMessage'', api_args = a\<rparr>]
           \<and> map_of a =
               (case map_of (body msg) (u ''thread_ts'') of
                  None \<Rightarrow> (map_of kwargs)(u ''text'' \<mapsto> t, u ''channel'' \<mapsto> ch)
                | Some ts \<Rightarrow>
                    (map_of kwargs)(u ''text'' \<mapsto> t, u ''channel'' \<mapsto> ch, u ''thread_ts'' \<mapsto> ts))
           \<and> (\<forall>res ok.
                 sc msg w \<lparr>api_method = u ''chat.postMessage'', api_args = a\<rparr> = Inr res \<longrightarrow>
                 py_getitem res (u ''ok'') = Inr ok \<longrightarrow> truthy ok \<longrightarrow>
                 reply U msg t kwargs w =
                   (Inr (), w @ [\<lparr>api_method = u ''chat.postMessage'', api_args = a\<rparr>]))"
proof -
  let ?args2 = "AList.update (u ''channel'') ch (AList.update (u ''text'') t kwargs)"
  let ?args3 = "case map_of (body msg) (u ''thread_ts'') of
                  Some ts \<Rightarrow> AList.update (u ''thread_ts'') ts ?args2
                | None \<Rightarrow> ?args2"
  let ?call = "\<lparr>api_method = u ''chat.postMessage'', api_args = ?args3\<rparr>"
  have r: "reply U msg t kwargs w =
      (case sc msg w ?call of
         Inl e \<Rightarrow> (Inl e, w @ [?call])
       | Inr res \<Rightarrow>
           (case py_getitem res (u ''ok'') of
              Inl e \<Rightarrow> (Inl e, w @ [?call])
            | Inr ok \<Rightarrow>
                if \<not> truthy ok then (Inl (Exception (py_str U res)), w @ [?call])
                else (Inr (), w @ [?call])))"
    using assms by (simp add: reply_def channel_id_def Let_def)
  have s: "snd (reply U msg t kwargs w) = w @ [?call]"
    by (simp add: r split: sum.splits)
  have m: "map_of ?args3 =
               (case map_of (body msg) (u ''thread_ts'') of
                  None \<Rightarrow> (map_of kwargs)(u ''text'' \<mapsto> t, u ''channel'' \<mapsto> ch)
                | Some ts \<Rightarrow>
                    (map_of kwargs)(u ''text'' \<mapsto> t, u ''channel'' \<mapsto> ch, u ''thread_ts'' \<mapsto> ts))"
    by (simp add: update_conv' split: option.splits)
  have k: "\<forall>res ok. sc msg w ?call = Inr res \<longrightarrow>
                 py_getitem res (u ''ok'') = Inr ok \<longrightarrow> truthy ok \<longrightarrow>
                 reply U msg t kwargs w = (Inr (), w @ [?call])"
    by (simp add: r)
  from s m k show ?thesis by blast
qed

lemma process_message_loop_skip:
  "\<forall>l\<in>set pre. \<not> fires U m d t l \<Longrightarrow>
   process_message_loop U (pre @ ls) m d t msg w = process_message_loop U ls m d t msg w"
  by (induction pre) (auto simp: fires_def split: option.splits)

lemma process_message_loop_fire:
  "\<not> mention_only l \<or> m \<or> d \<Longrightarrow> match U l t = Some mm \<Longrightarrow>
   process_message_loop U (l # ls) m d t msg w = process U l msg mm w"
  by auto

lemma process_message_loop_mention_only:
  "mention_only l \<Longrightarrow> \<not> m \<Longrightarrow> \<not> d \<Longrightarrow>
   process_message_loop U (pre @ l # post) m d t msg w = process_message_loop U (pre @ post) m d t msg w"
  by (induction pre) (auto split: option.splits)

lemma process_message_text:
  assumes "is_text_message msg" "map_of (body msg) (u ''text'') = Some (PyStr text0)"
    "map_of (body msg) (u ''channel_type'') = Some ct" "parse_mention U d text0 = (mentioned, text)"
  shows "process_message U d msg w =
           process_message_loop U (listeners d) mentioned (ct = PyStr (u ''app_home'')) text msg w"
  using assms by (simp add: process_message_def Let_def)

lemma parse_mention_listeners [simp]:
  "parse_mention U (d\<lparr>listeners := ls\<rparr>) text = parse_mention U d text"
  by (simp add: parse_mention_def cong: option.case_cong list.case_cong)

section \<open>One listener per message\<close>

text \<open>
  C1, as amended. For a text message with its channel type, let \<open>L1\<close> be registered before
  \<open>L2\<close>, both matching the text left by \<open>parse_mention\<close>. If no listener before \<open>L1\<close> fires
  and \<open>L1\<close> is not skipped (it is not mention-only, or the message is mentioned or direct),
  then \<open>process_message\<close> is exactly the processing of \<open>L1\<close> on its match: the handler of
  \<open>L2\<close> is not invoked, and the message is handled as if nothing were registered after
  \<open>L1\<close>. So at most one listener fires per message, the first that is not skipped and
  matches.
\<close>

theorem first_firing_listener_wins:
  assumes tm: "is_text_message msg"
    and tx: "map_of (body msg) (u ''text'') = Some (PyStr text0)"
    and ct: "map_of (body msg) (u ''channel_type'') = Some ct"
    and pm: "parse_mention U d text0 = (mentioned, text)"
    and ls: "listeners d = pre @ L1 # mid @ L2 # post"
    and pre: "\<forall>l\<in>set pre. \<not> fires U mentioned (ct = PyStr (u ''app_home'')) text l"
    and el: "\<not> mention_only L1 \<or> mentioned \<or> ct = PyStr (u ''app_home'')"
    and m1: "match U L1 text = Some m1"
    and m2: "match U L2 text = Some m2"
  shows "process_message U d msg w = process U L1 msg m1 w
       \<and> process_message U d msg w = process_message U (d\<lparr>listeners := pre @ [L1]\<rparr>) msg w"
proof -
  have a: "process_message U d msg w = process U L1 msg m1 w"
    by (simp only: process_message_text [OF tm tx ct pm] ls
          process_message_loop_skip [OF pre] process_message_loop_fire [OF el m1])
  have pm': "parse_mention U (d\<lparr>listeners := pre @ [L1]\<rparr>) text0 = (mentioned, text)"
    using pm by simp
  have "process_message U (d\<lparr>listeners := pre @ [L1]\<rparr>) msg w =
          process_message_loop U (pre @ [L1]) mentioned (ct = PyStr (u ''app_home'')) text msg w"
    using process_message_text [OF tm tx ct pm'] by simp
  also have "\<dots> = process U L1 msg m1 w"
    by (simp only: process_message_loop_skip [OF pre] process_message_loop_fire [OF el m1])
  finally show ?thesis using a by simp
qed

text \<open>
  The two listeners of \<open>two_listeners\<close> match \<open>hi there\<close>; in the home channel of the bot the
  first one, although mention-only, handles the message.
\<close>

theorem first_firing_listener_wins_witness:
  "process_message russian two_listeners (text_message (u ''hi there'') (u ''app_home'')) [] =
     (Inr (), [\<lparr>api_method = u ''chat.postMessage'',
                api_args = [(u ''text'', PyStr (u ''one'')), (u ''channel'', PyStr (u ''C1''))]\<rparr>])"
proof -
  let ?msg = "text_message (u ''hi there'') (u ''app_home'')"
  let ?L1 = "hi_listener (PyStr (u ''one'')) True"
  let ?L2 = "hi_listener (PyStr (u ''two'')) False"
  have tm: "is_text_message ?msg" by code_simp
  have tx: "map_of (body ?msg) (u ''text'') = Some (PyStr (u ''hi there''))" by code_simp
  have ct: "map_of (body ?msg) (u ''channel_type'') = Some (PyStr (u ''app_home''))" by code_simp
  have pm: "parse_mention russian two_listeners (u ''hi there'') = (False, (u ''hi there''))" by code_simp
  have ls: "listeners two_listeners = [] @ ?L1 # [] @ ?L2 # []"
    by (simp add: two_listeners_def register_listener_def Dispatcher_def)
  have pre: "\<forall>l\<in>set []. \<not> fires russian False (PyStr (u ''app_home'') = PyStr (u ''app_home'')) (u ''hi there'') l"
    by simp
  have el: "\<not> mention_only ?L1 \<or> False \<or> PyStr (u ''app_home'') = PyStr (u ''app_home'')" by simp
  have m1: "match russian ?L1 (u ''hi there'') = Some []" by code_simp
  have m2: "match russian ?L2 (u ''hi there'') = Some []" by code_simp
  have p: "process russian ?L1 ?msg [] [] = (Inr (), [\<lparr>api_method = u ''chat.postMessage'',
                api_args = [(u ''text'', PyStr (u ''one'')), (u ''channel'', PyStr (u ''C1''))]\<rparr>])"
    by code_simp
  from first_firing_listener_wins [OF tm tx ct pm ls pre el m1 m2, where w = "[]"] p
  show ?thesis by simp
qed

text \<open>
  C1, as stated, fails when the first of the two listeners is mention-only and the
  message is addressed to nobody: both patterns match, the first listener is skipped and
  the second one replies.
\<close>

theorem unaddressed_message_reaches_second_listener:
  "match russian (hi_listener (PyStr (u ''one'')) True) (u ''hi there'') = Some []
   \<and> match russian (hi_listener (PyStr (u ''two'')) False) (u ''hi there'') = Some []
   \<and> listeners two_listeners = [hi_listener (PyStr (u ''one'')) True, hi_listener (PyStr (u ''two'')) False]
   \<and> process_message russian two_listeners (text_message (u ''hi there'') (u ''channel'')) [] =
     (Inr (), [\<lparr>api_method = u ''chat.postMessage'',
                api_args = [(u ''text'', PyStr (u ''two'')), (u ''channel'', PyStr (u ''C1''))]\<rparr>])"
proof -
  have "match russian (hi_listener (PyStr (u ''one'')) True) (u ''hi there'') = Some []" by code_simp
  moreover have "match russian (hi_listener (PyStr (u ''two'')) False) (u ''hi there'') = Some []" by code_simp
  moreover have "listeners two_listeners =
      [hi_listener (PyStr (u ''one'')) True, hi_listener (PyStr (u ''two'')) False]"
    by (simp add: two_listeners_def register_listener_def Dispatcher_def)
  moreover have "process_message russian two_listeners (text_message (u ''hi there'') (u ''channel'')) [] =
     (Inr (), [\<lparr>api_method = u ''chat.postMessage'',
                api_args = [(u ''text'', PyStr (u ''two'')), (u ''channel'', PyStr (u ''C1''))]\<rparr>])"
    by code_simp
  ultimately show ?thesis by simp
qed


section \<open>What a handler returns\<close>

lemma process_returned:
  assumes "f l msg (groups m) w = (Inr res, w')"
  shows "process U l msg m w =
           (case res of
              PyStr s \<Rightarrow> reply U msg res [] w'
            | PyDict d \<Rightarrow> reply_kw U msg d w'
            | _ \<Rightarrow> if truthy res
                   then (Inl (Exception (u ''Bad listener result: '' @ py_str U res)), w')
                   else (Inr (), w'))"
  using assms by (simp add: process_def)

text \<open>
  C3, as amended. When the handler of a listener returns: \<open>None\<close> sends no reply; a string
  makes exactly one call \<open>chat.postMessage\<close> after whatever the handler did, with that
  string as its text, to the channel of the message (and to its thread, if any); a value
  of any other type than string and dict raises \<open>Bad listener result\<close> when it is truthy,
  and the loop of \<open>process_message\<close> passes the exception on to its caller.
\<close>

theorem process_handler_result:
  assumes h: "f l msg (groups m) w = (Inr res, w')"
  shows "(res = PyNone \<longrightarrow> process U l msg m w = (Inr (), w'))
       \<and> (\<forall>s ch. res = PyStr s \<longrightarrow> map_of (body msg) (u ''channel'') = Some ch \<longrightarrow>
            (\<exists>a. snd (process U l msg m w) = w' @ [\<lparr>api_method = u ''chat.postMessage'', api_args = a\<rparr>]
                 \<and> map_of a (u ''text'') = Some (PyStr s)
                 \<and> map_of a (u ''channel'') = Some ch
                 \<and> map_of a (u ''thread_ts'') = map_of (body msg) (u ''thread_ts'')
                 \<and> dom (map_of a) \<subseteq> {u ''text'', u ''channel'', u ''thread_ts''}))
       \<and> ((\<forall>s. res \<noteq> PyStr s) \<and> (\<forall>d. res \<noteq> PyDict d) \<and> truthy res \<longrightarrow>
            process U l msg m w = (Inl (Exception (u ''Bad listener result: '' @ py_str U res)), w')
            \<and> (\<forall>ls mentioned direct text.
                  (\<not> mention_only l \<or> mentioned \<or> direct) \<longrightarrow> match U l text = Some m \<longrightarrow>
                  process_message_loop U (l # ls) mentioned direct text msg w =
                    (Inl (Exception (u ''Bad listener result: '' @ py_str U res)), w')))"
proof (intro conjI allI impI)
  assume "res = PyNone"
  then show "process U l msg m w = (Inr (), w')"
    by (simp add: process_returned [OF h])
next
  fix s ch
  assume r: "res = PyStr s" and c: "map_of (body msg) (u ''channel'') = Some ch"
  from reply_sends [OF c, where U = U and t = "PyStr s" and kwargs = "[]" and w = w']
  obtain a where a: "snd (reply U msg (PyStr s) [] w') =
        w' @ [\<lparr>api_method = u ''chat.postMessage'', api_args = a\<rparr>]"
    and m: "map_of a =
               (case map_of (body msg) (u ''thread_ts'') of
                  None \<Rightarrow> (map_of [])(u ''text'' \<mapsto> PyStr s, u ''channel'' \<mapsto> ch)
                | Some ts \<Rightarrow> (map_of [])(u ''text'' \<mapsto> PyStr s, u ''channel'' \<mapsto> ch, u ''thread_ts'' \<mapsto> ts))"
    by blast
  have "snd (process U l msg m w) = w' @ [\<lparr>api_method = u ''chat.postMessage'', api_args = a\<rparr>]"
    using a r by (simp add: process_returned [OF h])
  moreover have "map_of a (u ''text'') = Some (PyStr s)" "map_of a (u ''channel'') = Some ch"
    "map_of a (u ''thread_ts'') = map_of (body msg) (u ''thread_ts'')"
    "dom (map_of a) \<subseteq> {u ''text'', u ''channel'', u ''thread_ts''}"
    by (auto simp: m split: option.splits if_splits)
  ultimately show "\<exists>a. snd (process U l msg m w) = w' @ [\<lparr>api_method = u ''chat.postMessage'', api_args = a\<rparr>]
                 \<and> map_of a (u ''text'') = Some (PyStr s)
                 \<and> map_of a (u ''channel'') = Some ch
                 \<and> map_of a (u ''thread_ts'') = map_of (body msg) (u ''thread_ts'')
                 \<and> dom (map_of a) \<subseteq> {u ''text'', u ''channel'', u ''thread_ts''}"
    by blast
next
  assume o: "(\<forall>s. res \<noteq> PyStr s) \<and> (\<forall>d. res \<noteq> PyDict d) \<and> truthy res"
  then show p: "process U l msg m w = (Inl (Exception (u ''Bad listener result: '' @ py_str U res)), w')"
    by (cases res) (simp_all add: process_returned [OF h])
  fix ls mentioned direct t
  assume "\<not> mention_only l \<or> mentioned \<or> direct" "match U l t = Some m"
  then show "process_message_loop U (l # ls) mentioned direct t msg w =
                    (Inl (Exception (u ''Bad listener result: '' @ py_str U res)), w')"
    using p by (simp only: process_message_loop_fire)
qed

theorem process_handler_result_witness:
  "process russian (hi_listener PyNone False) (text_message (u ''hi'') (u ''channel'')) [] [] = (Inr (), [])
   \<and> snd (process russian (hi_listener (PyStr (u ''ok'')) False) (text_message (u ''hi'') (u ''channel'')) [] []) =
       [\<lparr>api_method = u ''chat.postMessage'',
         api_args = [(u ''text'', PyStr (u ''ok'')), (u ''channel'', PyStr (u ''C1''))]\<rparr>]
   \<and> process russian (hi_listener (PyInt 5) False) (text_message (u ''hi'') (u ''channel'')) [] [] =
       (Inl (Exception (u ''Bad listener result: 5'')), [])"
proof -
  let ?msg = "text_message (u ''hi'') (u ''channel'')"
  have h: "f (hi_listener v False) ?msg (groups []) [] = (Inr v, [])" for v
    by (simp add: hi_listener_def returns_def)
  have "process russian (hi_listener PyNone False) ?msg [] [] = (Inr (), [])"
    using process_handler_result [OF h [of PyNone], where U = russian] by simp
  moreover have "snd (process russian (hi_listener (PyStr (u ''ok'')) False) ?msg [] []) =
       [\<lparr>api_method = u ''chat.postMessage'',
         api_args = [(u ''text'', PyStr (u ''ok'')), (u ''channel'', PyStr (u ''C1''))]\<rparr>]"
    by code_simp
  moreover have "py_str russian (PyInt 5) = u ''5''" by code_simp
  then have "process russian (hi_listener (PyInt 5) False) ?msg [] [] =
       (Inl (Exception (u ''Bad listener result: 5'')), [])"
    using process_handler_result [OF h [of "PyInt 5"], where U = russian] by (simp add: u_append)
  ultimately show ?thesis by simp
qed

text \<open>
  C3, as stated, fails for the integer \<open>0\<close>: a handler that returns it raises nothing
  and sends nothing.
\<close>

theorem zero_result_raises_nothing:
  "process russian (hi_listener (PyInt 0) False) (text_message (u ''hi'') (u ''channel'')) [] [] = (Inr (), [])"
  by code_simp

text \<open>
  C10. A handler result that is neither a string nor a dict and is falsy (\<open>0\<close>, \<open>False\<close>,
  an empty list, \<open>None\<close>) sends no reply and raises no error: the world is the one the
  handler left.
\<close>

theorem falsy_result_is_silent:
  assumes "f l msg (groups m) w = (Inr res, w')"
    and "\<forall>s. res \<noteq> PyStr s" and "\<forall>d. res \<noteq> PyDict d" and "\<not> truthy res"
  shows "process U l msg m w = (Inr (), w')"
  using assms by (cases res) (simp_all add: process_returned)

theorem falsy_result_is_silent_witness:
  "process russian (hi_listener (PyInt 0) False) (text_message (u ''hi'') (u ''channel'')) [] [] = (Inr (), [])
   \<and> process russian (hi_listener (PyBool False) False) (text_message (u ''hi'') (u ''channel'')) [] [] = (Inr (), [])
   \<and> process russian (hi_listener (PyList []) False) (text_message (u ''hi'') (u ''channel'')) [] [] = (Inr (), [])"
proof -
  have h: "f (hi_listener v False) (text_message (u ''hi'') (u ''channel'')) (groups []) [] = (Inr v, [])" for v
    by (simp add: hi_listener_def returns_def)
  show ?thesis
    using falsy_result_is_silent [OF h [of "PyInt 0"], where U = russian]
      falsy_result_is_silent [OF h [of "PyBool False"], where U = russian]
      falsy_result_is_silent [OF h [of "PyList []"], where U = russian]
    by simp
qed

section \<open>No listener fires\<close>

lemma reply_plain:
  assumes "map_of (body msg) (u ''channel'') = Some ch"
  shows "\<exists>a. snd (reply U msg t [] w) = w @ [\<lparr>api_method = u ''chat.postMessage'', api_args = a\<rparr>]
           \<and> map_of a (u ''text'') = Some t
           \<and> map_of a (u ''channel'') = Some ch
           \<and> map_of a (u ''thread_ts'') = map_of (body msg) (u ''thread_ts'')
           \<and> dom (map_of a) \<subseteq> {u ''text'', u ''channel'', u ''thread_ts''}
           \<and> (\<forall>res ok.
                 sc msg w \<lparr>api_method = u ''chat.postMessage'', api_args = a\<rparr> = Inr res \<longrightarrow>
                 py_getitem res (u ''ok'') = Inr ok \<longrightarrow> truthy ok \<longrightarrow>
                 reply U msg t [] w = (Inr (), w @ [\<lparr>api_method = u ''chat.postMessage'', api_args = a\<rparr>]))"
proof -
  from reply_sends [OF assms, where U = U and t = t and kwargs = "[]" and w = w]
  obtain a where a: "snd (reply U msg t [] w) = w @ [\<lparr>api_method = u ''chat.postMessage'', api_args = a\<rparr>]"
    and m: "map_of a =
               (case map_of (body msg) (u ''thread_ts'') of
                  None \<Rightarrow> (map_of [])(u ''text'' \<mapsto> t, u ''channel'' \<mapsto> ch)
                | Some ts \<Rightarrow> (map_of [])(u ''text'' \<mapsto> t, u ''channel'' \<mapsto> ch, u ''thread_ts'' \<mapsto> ts))"
    and k: "\<forall>res ok.
                 sc msg w \<lparr>api_method = u ''chat.postMessage'', api_args = a\<rparr> = Inr res \<longrightarrow>
                 py_getitem res (u ''ok'') = Inr ok \<longrightarrow> truthy ok \<longrightarrow>
                 reply U msg t [] w = (Inr (), w @ [\<lparr>api_method = u ''chat.postMessage'', api_args = a\<rparr>])"
    by blast
  have "map_of a (u ''text'') = Some t" "map_of a (u ''channel'') = Some ch"
    "map_of a (u ''thread_ts'') = map_of (body msg) (u ''thread_ts'')"
    "dom (map_of a) \<subseteq> {u ''text'', u ''channel'', u ''thread_ts''}"
    by (auto simp: m split: option.splits if_splits)
  with a k show ?thesis by blast
qed

lemma process_message_loop_none:
  assumes "\<forall>l\<in>set ls. \<not> fires U m d t l"
  shows "process_message_loop U ls m d t msg w =
           (if m \<or> d then reply U msg (PyStr dont_understand) [] w else (Inr (), w))"
  using process_message_loop_skip [OF assms, where ls = "[]" and msg = msg and w = w] by simp

text \<open>
  C4. For a text message (with its text a string and its channel type) on which no
  listener fires: if the message is mentioned or direct, \<open>process_message\<close> makes exactly
  one call \<open>chat.postMessage\<close>, with the fixed fallback text, to the channel of the
  message; otherwise it makes no call and returns normally.
\<close>

theorem unmatched_message_fallback:
  assumes tm: "is_text_message msg"
    and tx: "map_of (body msg) (u ''text'') = Some (PyStr text0)"
    and ct: "map_of (body msg) (u ''channel_type'') = Some ct"
    and pm: "parse_mention U d text0 = (mentioned, text)"
    and none: "\<forall>l\<in>set (listeners d). \<not> fires U mentioned (ct = PyStr (u ''app_home'')) text l"
  shows "(mentioned \<or> ct = PyStr (u ''app_home'') \<longrightarrow>
           (\<forall>ch. map_of (body msg) (u ''channel'') = Some ch \<longrightarrow>
             (\<exists>a. snd (process_message U d msg w) =
                      w @ [\<lparr>api_method = u ''chat.postMessage'', api_args = a\<rparr>]
                \<and> map_of a (u ''text'') = Some (PyStr dont_understand)
                \<and> map_of a (u ''channel'') = Some ch
                \<and> map_of a (u ''thread_ts'') = map_of (body msg) (u ''thread_ts'')
                \<and> dom (map_of a) \<subseteq> {u ''text'', u ''channel'', u ''thread_ts''})))
       \<and> (\<not> mentioned \<and> ct \<noteq> PyStr (u ''app_home'') \<longrightarrow> process_message U d msg w = (Inr (), w))"
proof -
  have e: "process_message U d msg w =
      (if mentioned \<or> ct = PyStr (u ''app_home'') then reply U msg (PyStr dont_understand) [] w
       else (Inr (), w))"
    by (simp only: process_message_text [OF tm tx ct pm] process_message_loop_none [OF none])
  show ?thesis
  proof (intro conjI allI impI)
    fix ch
    assume "mentioned \<or> ct = PyStr (u ''app_home'')" and "map_of (body msg) (u ''channel'') = Some ch"
    then have c: "map_of (body msg) (u ''channel'') = Some ch"
      and r: "process_message U d msg w = reply U msg (PyStr dont_understand) [] w"
      by (simp_all add: e)
    from reply_plain [OF c, where U = U and t = "PyStr dont_understand" and w = w]
    show "\<exists>a. snd (process_message U d msg w) =
                      w @ [\<lparr>api_method = u ''chat.postMessage'', api_args = a\<rparr>]
                \<and> map_of a (u ''text'') = Some (PyStr dont_understand)
                \<and> map_of a (u ''channel'') = Some ch
                \<and> map_of a (u ''thread_ts'') = map_of (body msg) (u ''thread_ts'')
                \<and> dom (map_of a) \<subseteq> {u ''text'', u ''channel'', u ''thread_ts''}"
      unfolding r by blast
  next
    assume "\<not> mentioned \<and> ct \<noteq> PyStr (u ''app_home'')"
    then show "process_message U d msg w = (Inr (), w)" by (simp add: e)
  qed
qed

text \<open>
  No listener of \<open>two_listeners\<close> matches \<open>what\<close>: addressed to \<open>bob\<close> the message gets the
  fallback reply, addressed to nobody it gets none.
\<close>

theorem unmatched_message_fallback_witness:
  "snd (process_message russian two_listeners (text_message (u ''bob, what'') (u ''channel'')) []) =
     [\<lparr>api_method = u ''chat.postMessage'',
       api_args = [(u ''text'', PyStr dont_understand), (u ''channel'', PyStr (u ''C1''))]\<rparr>]
   \<and> process_message russian two_listeners (text_message (u ''what'') (u ''channel'')) [] = (Inr (), [])"
proof -
  let ?m1 = "text_message (u ''bob, what'') (u ''channel'')"
  let ?m2 = "text_message (u ''what'') (u ''channel'')"
  have ls: "listeners two_listeners =
      [hi_listener (PyStr (u ''one'')) True, hi_listener (PyStr (u ''two'')) False]"
    by (simp add: two_listeners_def register_listener_def Dispatcher_def)
  have n1: "match russian (hi_listener (PyStr (u ''one'')) True) (u ''what'') = None" by code_simp
  have n2: "match russian (hi_listener (PyStr (u ''two'')) False) (u ''what'') = None" by code_simp
  have none: "\<forall>l\<in>set (listeners two_listeners). \<not> fires russian m (PyStr (u ''channel'') = PyStr (u ''app_home'')) (u ''what'') l" for m
    by (simp add: ls fires_def n1 n2)
  have tm1: "is_text_message ?m1" by code_simp
  have tx1: "map_of (body ?m1) (u ''text'') = Some (PyStr (u ''bob, what''))" by code_simp
  have ct1: "map_of (body ?m1) (u ''channel_type'') = Some (PyStr (u ''channel''))" by code_simp
  have pm1: "parse_mention russian two_listeners (u ''bob, what'') = (True, (u ''what''))" by code_simp
  have ch1: "map_of (body ?m1) (u ''channel'') = Some (PyStr (u ''C1''))" by code_simp
  have tm2: "is_text_message ?m2" by code_simp
  have tx2: "map_of (body ?m2) (u ''text'') = Some (PyStr (u ''what''))" by code_simp
  have ct2: "map_of (body ?m2) (u ''channel_type'') = Some (PyStr (u ''channel''))" by code_simp
  have pm2: "parse_mention russian two_listeners (u ''what'') = (False, (u ''what''))" by code_simp
  have a: "snd (process_message russian two_listeners ?m1 []) =
     [\<lparr>api_method = u ''chat.postMessage'',
       api_args = [(u ''text'', PyStr dont_understand), (u ''channel'', PyStr (u ''C1''))]\<rparr>]"
    by code_simp
  have "process_message russian two_listeners ?m2 [] = (Inr (), [])"
    using unmatched_message_fallback [OF tm2 tx2 ct2 pm2 none, where w = "[]"] by simp
  with a show ?thesis by simp
qed


section \<open>Mention-only listeners\<close>

text \<open>
  C5. Let \<open>l\<close> be a mention-only listener of the dispatcher. On a message that is neither
  mentioned nor direct, \<open>process_message\<close> does what it does without \<open>l\<close>: the listener is
  skipped, whatever its pattern and its handler. On a message that is mentioned, or
  direct (its channel type is \<open>app_home\<close>, with or without a mention), if no listener
  before \<open>l\<close> fires and the pattern of \<open>l\<close> matches, then \<open>l\<close> fires: its handler is called
  with the groups of the match; what the handler raises is raised; a string it returns is
  sent, in one call \<open>chat.postMessage\<close> after whatever the handler did, and
  \<open>process_message\<close> returns normally when the client accepts the call.
\<close>

theorem mention_only_listener:
  assumes tm: "is_text_message msg"
    and tx: "map_of (body msg) (u ''text'') = Some (PyStr text0)"
    and ct: "map_of (body msg) (u ''channel_type'') = Some ct"
    and pm: "parse_mention U d text0 = (mentioned, text)"
    and ls: "listeners d = pre @ l # post"
    and mo: "mention_only l"
  shows "(\<not> mentioned \<and> ct \<noteq> PyStr (u ''app_home'') \<longrightarrow>
            process_message U d msg w = process_message U (d\<lparr>listeners := pre @ post\<rparr>) msg w)
       \<and> (mentioned \<or> ct = PyStr (u ''app_home'') \<longrightarrow>
            (\<forall>l'\<in>set pre. \<not> fires U mentioned (ct = PyStr (u ''app_home'')) text l') \<longrightarrow>
            (\<forall>m. match U l text = Some m \<longrightarrow>
               process_message U d msg w = process U l msg m w
               \<and> (\<forall>e w'. f l msg (groups m) w = (Inl e, w') \<longrightarrow>
                     process_message U d msg w = (Inl e, w'))
               \<and> (\<forall>s w' ch. f l msg (groups m) w = (Inr (PyStr s), w') \<longrightarrow>
                     map_of (body msg) (u ''channel'') = Some ch \<longrightarrow>
                     (\<exists>a. snd (process_message U d msg w) = w' @ [\<lparr>api_method = u ''chat.postMessage'', api_args = a\<rparr>]
                        \<and> map_of a (u ''text'') = Some (PyStr s)
                        \<and> map_of a (u ''channel'') = Some ch
                        \<and> (\<forall>res ok. sc msg w' \<lparr>api_method = u ''chat.postMessage'', api_args = a\<rparr> = Inr res \<longrightarrow>
                              py_getitem res (u ''ok'') = Inr ok \<longrightarrow> truthy ok \<longrightarrow>
                              process_message U d msg w = (Inr (), w' @ [\<lparr>api_method = u ''chat.postMessage'', api_args = a\<rparr>]))))))"
proof (intro conjI allI impI ballI)
  assume n: "\<not> mentioned \<and> ct \<noteq> PyStr (u ''app_home'')"
  have pm': "parse_mention U (d\<lparr>listeners := pre @ post\<rparr>) text0 = (mentioned, text)"
    using pm by simp
  have "process_message U d msg w =
          process_message_loop U (pre @ post) mentioned (ct = PyStr (u ''app_home'')) text msg w"
    using n mo by (simp only: process_message_text [OF tm tx ct pm] ls)
      (simp add: process_message_loop_mention_only)
  also have "\<dots> = process_message U (d\<lparr>listeners := pre @ post\<rparr>) msg w"
    using process_message_text [OF tm tx ct pm'] by simp
  finally show "process_message U d msg w =
      process_message U (d\<lparr>listeners := pre @ post\<rparr>) msg w" .
next
  fix m
  assume ad: "mentioned \<or> ct = PyStr (u ''app_home'')"
    and pre: "\<forall>l'\<in>set pre. \<not> fires U mentioned (ct = PyStr (u ''app_home'')) text l'"
    and m: "match U l text = Some m"
  have el: "\<not> mention_only l \<or> mentioned \<or> ct = PyStr (u ''app_home'')" using ad by blast
  show p: "process_message U d msg w = process U l msg m w"
    by (simp only: process_message_text [OF tm tx ct pm] ls
          process_message_loop_skip [OF pre] process_message_loop_fire [OF el m])
  {
    fix e w'
    assume "f l msg (groups m) w = (Inl e, w')"
    then show "process_message U d msg w = (Inl e, w')"
      by (simp add: p process_def)
  }
  {
    fix s w' ch
    assume h: "f l msg (groups m) w = (Inr (PyStr s), w')"
      and c: "map_of (body msg) (u ''channel'') = Some ch"
    have r: "process_message U d msg w = reply U msg (PyStr s) [] w'"
      by (simp add: p process_returned [OF h])
    from reply_plain [OF c, where U = U and t = "PyStr s" and w = w']
    show "\<exists>a. snd (process_message U d msg w) = w' @ [\<lparr>api_method = u ''chat.postMessage'', api_args = a\<rparr>]
                        \<and> map_of a (u ''text'') = Some (PyStr s)
                        \<and> map_of a (u ''channel'') = Some ch
                        \<and> (\<forall>res ok. sc msg w' \<lparr>api_method = u ''chat.postMessage'', api_args = a\<rparr> = Inr res \<longrightarrow>
                              py_getitem res (u ''ok'') = Inr ok \<longrightarrow> truthy ok \<longrightarrow>
                              process_message U d msg w = (Inr (), w' @ [\<lparr>api_method = u ''chat.postMessage'', api_args = a\<rparr>]))"
      unfolding r by blast
  }
qed

text \<open>
  The mention-only listener of \<open>two_listeners\<close> answers \<open>one\<close>, the other listener \<open>two\<close>.
  On \<open>hi there\<close> in a regular channel the first is skipped; mentioned in a regular
  channel, or unmentioned in the home channel, it fires.
\<close>

theorem mention_only_listener_witness:
  "process_message russian two_listeners (text_message (u ''hi there'') (u ''channel'')) [] =
     (Inr (), [\<lparr>api_method = u ''chat.postMessage'',
                api_args = [(u ''text'', PyStr (u ''two'')), (u ''channel'', PyStr (u ''C1''))]\<rparr>])
   \<and> process_message russian two_listeners
        (text_message (u ''<@U123> hi there'') (u ''channel'')) [] =
     (Inr (), [\<lparr>api_method = u ''chat.postMessage'',
                api_args = [(u ''text'', PyStr (u ''one'')), (u ''channel'', PyStr (u ''C1''))]\<rparr>])
   \<and> process_message russian two_listeners (text_message (u ''hi there'') (u ''app_home'')) [] =
     (Inr (), [\<lparr>api_method = u ''chat.postMessage'',
                api_args = [(u ''text'', PyStr (u ''one'')), (u ''channel'', PyStr (u ''C1''))]\<rparr>])"
proof -
  let ?L1 = "hi_listener (PyStr (u ''one'')) True"
  let ?L2 = "hi_listener (PyStr (u ''two'')) False"
  let ?one = "(Inr (), [\<lparr>api_method = u ''chat.postMessage'',
                api_args = [(u ''text'', PyStr (u ''one'')), (u ''channel'', PyStr (u ''C1''))]\<rparr>])"
  have ls: "listeners two_listeners = [] @ ?L1 # [?L2]"
    by (simp add: two_listeners_def register_listener_def Dispatcher_def)
  have mo: "mention_only ?L1" by (simp add: hi_listener_def)
  have pm: "parse_mention russian two_listeners (u ''hi there'') = (False, u ''hi there'')"
    by code_simp
  have pm2: "parse_mention russian two_listeners (u ''<@U123> hi there'') = (True, u ''hi there'')"
    by code_simp
  have m1: "match russian ?L1 (u ''hi there'') = Some []" by code_simp
  have tm: "is_text_message (text_message t c)" for t c
    by (simp add: is_text_message_def text_message_def text_event_def)
  have tx: "map_of (body (text_message t c)) (u ''text'') = Some (PyStr t)" for t c
    by (simp add: text_message_def text_event_def)
  have ct: "map_of (body (text_message t c)) (u ''channel_type'') = Some (PyStr c)" for t c
    by (simp add: text_message_def text_event_def)
  have p: "process russian ?L1 (text_message t c) [] [] = ?one" for t c
    by (simp add: process_def hi_listener_def returns_def reply_def channel_id_def
          text_message_def text_event_def ok_client_def Let_def)
  have "process_message russian two_listeners (text_message (u ''hi there'') (u ''channel'')) [] =
     process_message russian (two_listeners\<lparr>listeners := [?L2]\<rparr>)
       (text_message (u ''hi there'') (u ''channel'')) []"
    using mention_only_listener [OF tm tx ct pm ls mo, where w = "[]"] by simp
  moreover have "process_message russian (two_listeners\<lparr>listeners := [?L2]\<rparr>)
       (text_message (u ''hi there'') (u ''channel'')) [] =
     (Inr (), [\<lparr>api_method = u ''chat.postMessage'',
                api_args = [(u ''text'', PyStr (u ''two'')), (u ''channel'', PyStr (u ''C1''))]\<rparr>])"
    by code_simp
  moreover have "process_message russian two_listeners
        (text_message (u ''<@U123> hi there'') (u ''channel'')) [] = ?one"
    using mention_only_listener [OF tm tx ct pm2 ls mo, where w = "[]"] m1 p by simp
  moreover have "process_message russian two_listeners
        (text_message (u ''hi there'') (u ''app_home'')) [] = ?one"
    using mention_only_listener [OF tm tx ct pm ls mo, where w = "[]"] m1 p by simp
  ultimately show ?thesis by simp
qed

section \<open>Structured replies\<close>

lemma reply_kw_text:
  assumes "map_of d (u ''self'') = None" "map_of d (u ''text'') = Some t"
  shows "reply_kw U msg d w = reply U msg t (AList.delete (u ''text'') d) w"
  using assms by (simp add: reply_kw_def)

text \<open>
  C6, as amended. When a handler returns a dict with a key \<open>text\<close> and no key \<open>self\<close>,
  exactly one call \<open>chat.postMessage\<close> is made, after whatever the handler did; its
  arguments are the fields of the dict, each with its value, except that \<open>channel\<close> is
  always the channel of the message and, when the message is in a thread, \<open>thread_ts\<close> is
  always the thread of the message; \<open>process\<close> returns normally when the client accepts the
  call. A dict with a key \<open>self\<close>, or without a key \<open>text\<close>, cannot be passed to
  \<open>Message.reply\<close>: a \<open>TypeError\<close> is raised and nothing is sent.
\<close>

theorem dict_result_forwarded:
  assumes h: "f l msg (groups m) w = (Inr (PyDict d), w')"
  shows "(map_of d (u ''self'') \<noteq> None \<longrightarrow>
            process U l msg m w =
              (Inl (TypeError (u ''reply() got multiple values for argument '' @ quoted (u ''self''))),
               w'))
       \<and> (map_of d (u ''self'') = None \<and> map_of d (u ''text'') = None \<longrightarrow>
            process U l msg m w =
              (Inl (TypeError (u ''reply() missing 1 required positional argument: '' @
                      quoted (u ''text''))),
               w'))
       \<and> (\<forall>t ch. map_of d (u ''self'') = None \<longrightarrow> map_of d (u ''text'') = Some t \<longrightarrow>
            map_of (body msg) (u ''channel'') = Some ch \<longrightarrow>
            (\<exists>a. snd (process U l msg m w) = w' @ [\<lparr>api_method = u ''chat.postMessage'', api_args = a\<rparr>]
               \<and> map_of a =
                   (case map_of (body msg) (u ''thread_ts'') of
                      None \<Rightarrow> (map_of d)(u ''channel'' \<mapsto> ch)
                    | Some ts \<Rightarrow> (map_of d)(u ''channel'' \<mapsto> ch, u ''thread_ts'' \<mapsto> ts))
               \<and> (\<forall>res ok. sc msg w' \<lparr>api_method = u ''chat.postMessage'', api_args = a\<rparr> = Inr res \<longrightarrow>
                     py_getitem res (u ''ok'') = Inr ok \<longrightarrow> truthy ok \<longrightarrow>
                     process U l msg m w = (Inr (), w' @ [\<lparr>api_method = u ''chat.postMessage'', api_args = a\<rparr>]))))"
proof (intro conjI allI impI)
  assume "map_of d (u ''self'') \<noteq> None"
  then show "process U l msg m w =
              (Inl (TypeError (u ''reply() got multiple values for argument '' @ quoted (u ''self''))),
               w')"
    by (simp add: process_returned [OF h] reply_kw_def)
next
  assume "map_of d (u ''self'') = None \<and> map_of d (u ''text'') = None"
  then show "process U l msg m w =
              (Inl (TypeError (u ''reply() missing 1 required positional argument: '' @
                      quoted (u ''text''))),
               w')"
    by (simp add: process_returned [OF h] reply_kw_def)
next
  fix t ch
  assume sf: "map_of d (u ''self'') = None" and tx: "map_of d (u ''text'') = Some t"
    and ch: "map_of (body msg) (u ''channel'') = Some ch"
  have p: "process U l msg m w = reply U msg t (AList.delete (u ''text'') d) w'"
    by (simp add: process_returned [OF h] reply_kw_text [OF sf tx])
  have k: "(map_of (AList.delete (u ''text'') d))(u ''text'' \<mapsto> t) = map_of d"
    using tx by (auto simp: delete_conv' fun_eq_iff)
  from reply_sends [OF ch, where U = U and t = t and kwargs = "AList.delete (u ''text'') d"
      and w = w']
  show "\<exists>a. snd (process U l msg m w) = w' @ [\<lparr>api_method = u ''chat.postMessage'', api_args = a\<rparr>]
               \<and> map_of a =
                   (case map_of (body msg) (u ''thread_ts'') of
                      None \<Rightarrow> (map_of d)(u ''channel'' \<mapsto> ch)
                    | Some ts \<Rightarrow> (map_of d)(u ''channel'' \<mapsto> ch, u ''thread_ts'' \<mapsto> ts))
               \<and> (\<forall>res ok. sc msg w' \<lparr>api_method = u ''chat.postMessage'', api_args = a\<rparr> = Inr res \<longrightarrow>
                     py_getitem res (u ''ok'') = Inr ok \<longrightarrow> truthy ok \<longrightarrow>
                     process U l msg m w = (Inr (), w' @ [\<lparr>api_method = u ''chat.postMessage'', api_args = a\<rparr>]))"
    by (simp only: p k)
qed

text \<open>
  The map of the specification, \<open>{text: "x", icon: "y"}\<close>, is sent with the channel of
  the message; a map with a key \<open>self\<close> sends nothing.
\<close>

theorem dict_result_forwarded_witness:
  "process russian (hi_listener (PyDict [(u ''text'', PyStr (u ''x'')), (u ''icon'', PyStr (u ''y''))]) False)
     (text_message (u ''hi'') (u ''channel'')) [] [] =
   (Inr (), [\<lparr>api_method = u ''chat.postMessage'',
              api_args = [(u ''icon'', PyStr (u ''y'')), (u ''text'', PyStr (u ''x'')),
                          (u ''channel'', PyStr (u ''C1''))]\<rparr>])
   \<and> process russian (hi_listener (PyDict [(u ''text'', PyStr (u ''x'')), (u ''self'', PyInt 1)]) False)
     (text_message (u ''hi'') (u ''channel'')) [] [] =
   (Inl (TypeError (u ''reply() got multiple values for argument '' @ quoted (u ''self''))), [])"
proof -
  let ?d = "[(u ''text'', PyStr (u ''x'')), (u ''icon'', PyStr (u ''y''))]"
  let ?e = "[(u ''text'', PyStr (u ''x'')), (u ''self'', PyInt 1)]"
  let ?msg = "text_message (u ''hi'') (u ''channel'')"
  have h: "f (hi_listener (PyDict d) False) ?msg (groups []) [] = (Inr (PyDict d), [])" for d
    by (simp add: hi_listener_def returns_def)
  have tx: "map_of ?d (u ''text'') = Some (PyStr (u ''x''))" by simp
  have sf: "map_of ?d (u ''self'') = None" by simp
  have ch: "map_of (body ?msg) (u ''channel'') = Some (PyStr (u ''C1''))"
    by (simp add: text_message_def text_event_def)
  from dict_result_forwarded [OF h [of ?d], where U = russian, THEN conjunct2, THEN conjunct2,
      rule_format, OF sf tx ch]
  obtain a where s: "snd (process russian (hi_listener (PyDict ?d) False) ?msg [] []) =
          [] @ [\<lparr>api_method = u ''chat.postMessage'', api_args = a\<rparr>]"
    and k: "\<forall>res ok. sc ?msg [] \<lparr>api_method = u ''chat.postMessage'', api_args = a\<rparr> = Inr res \<longrightarrow>
                     py_getitem res (u ''ok'') = Inr ok \<longrightarrow> truthy ok \<longrightarrow>
                     process russian (hi_listener (PyDict ?d) False) ?msg [] [] =
                       (Inr (), [] @ [\<lparr>api_method = u ''chat.postMessage'', api_args = a\<rparr>])"
    by blast
  have "sc ?msg [] \<lparr>api_method = u ''chat.postMessage'', api_args = a\<rparr> =
      Inr (PyDict [(u ''ok'', PyBool True)])"
    by (simp add: text_message_def ok_client_def)
  with k have "fst (process russian (hi_listener (PyDict ?d) False) ?msg [] []) = Inr ()"
    by simp
  moreover have "snd (process russian (hi_listener (PyDict ?d) False) ?msg [] []) =
      [\<lparr>api_method = u ''chat.postMessage'',
              api_args = [(u ''icon'', PyStr (u ''y'')), (u ''text'', PyStr (u ''x'')),
                          (u ''channel'', PyStr (u ''C1''))]\<rparr>]"
    by code_simp
  ultimately have a: "process russian (hi_listener (PyDict ?d) False) ?msg [] [] =
      (Inr (), [\<lparr>api_method = u ''chat.postMessage'',
              api_args = [(u ''icon'', PyStr (u ''y'')), (u ''text'', PyStr (u ''x'')),
                          (u ''channel'', PyStr (u ''C1''))]\<rparr>])"
    by (simp add: prod_eq_iff)
  have "map_of ?e (u ''self'') \<noteq> None" by simp
  with dict_result_forwarded [OF h [of ?e], where U = russian]
  have "process russian (hi_listener (PyDict ?e) False) ?msg [] [] =
      (Inl (TypeError (u ''reply() got multiple values for argument '' @ quoted (u ''self''))), [])"
    by blast
  then show ?thesis using a by simp
qed

text \<open>
  C6, as stated, fails for a dict with a key \<open>channel\<close>: the handler asks for channel
  \<open>C999\<close>, the call goes to the channel \<open>C1\<close> of the message.
\<close>

theorem dict_channel_is_overwritten:
  "process russian (hi_listener (PyDict [(u ''text'', PyStr (u ''x'')), (u ''channel'', PyStr (u ''C999''))]) False)
     (text_message (u ''hi'') (u ''channel'')) [] [] =
   (Inr (), [\<lparr>api_method = u ''chat.postMessage'',
              api_args = [(u ''channel'', PyStr (u ''C1'')), (u ''text'', PyStr (u ''x''))]\<rparr>])"
  by code_simp


section \<open>Actions\<close>

text \<open>
  \<open>re.match\<close> looks at the start of the text only and does not ask for its end: a literal
  pattern matches every text it starts.
\<close>

lemma re_match_lit:
  "re_match U (lit p) ic text = (if lit_ok U ic p text then Some [] else None)"
  by (simp add: re_match_first ms_lit ngroups_lit)

lemma process_action_loop_skip:
  assumes "map_of payload (u ''callback_id'') = Some (PyStr cid)"
    and "\<forall>a\<in>set pre. re_match U (a_regex a) False cid = None"
  shows "process_action_loop U (pre @ rest) payload w = process_action_loop U rest payload w"
  using assms by (induction pre) simp_all

text \<open>
  C7, as amended. \<open>process_action\<close> matches each registered pattern against the start of
  the \<open>callback_id\<close> of the payload, in registration order and with letter case
  significant (no flag is passed to \<open>re.match\<close>). It returns what the handler of the first
  matching action returns, called with the payload and the groups; when no registered
  pattern matches it raises \<open>unknown action\<close> and leaves the world as it is.
\<close>

theorem action_dispatch:
  assumes cb: "map_of payload (u ''callback_id'') = Some (PyStr cid)"
  shows "((\<forall>a\<in>set (actions d). re_match U (a_regex a) False cid = None) \<longrightarrow>
            process_action U d payload w = (Inl (Exception (u ''unknown action'')), w))
       \<and> (\<forall>pre a post m.
            actions d = pre @ a # post \<longrightarrow>
            (\<forall>a'\<in>set pre. re_match U (a_regex a') False cid = None) \<longrightarrow>
            re_match U (a_regex a) False cid = Some m \<longrightarrow>
            process_action U d payload w = a_f a payload (groups m) w)"
proof (intro conjI allI impI)
  assume n: "\<forall>a\<in>set (actions d). re_match U (a_regex a) False cid = None"
  show "process_action U d payload w = (Inl (Exception (u ''unknown action'')), w)"
    using process_action_loop_skip [OF cb n, where rest = "[]" and w = w]
    by (simp add: process_action_def)
next
  fix pre a post m
  assume "actions d = pre @ a # post"
    and n: "\<forall>a'\<in>set pre. re_match U (a_regex a') False cid = None"
    and "re_match U (a_regex a) False cid = Some m"
  then show "process_action U d payload w = a_f a payload (groups m) w"
    using process_action_loop_skip [OF cb n, where rest = "a # post" and w = w] cb
    by (simp add: process_action_def)
qed

text \<open>One action, \<open>approve\<close>: \<open>reject\<close> is unknown, \<open>approve_1\<close> is handled.\<close>

theorem action_dispatch_witness:
  "process_action russian approve_action [(u ''callback_id'', PyStr (u ''reject''))] [] =
     (Inl (Exception (u ''unknown action'')), [])
   \<and> process_action russian approve_action [(u ''callback_id'', PyStr (u ''approve_1''))] [] =
     (Inr (PyStr (u ''done'')), [])"
proof -
  let ?a = "\<lparr>a_regex = lit (u ''approve''), a_f = (\<lambda>payload gs w. (Inr (PyStr (u ''done'')), w))\<rparr>"
  have as: "actions approve_action = [] @ ?a # []"
    by (simp add: approve_action_def register_action_def Dispatcher_def)
  have c1: "map_of [(u ''callback_id'', PyStr (u ''reject''))] (u ''callback_id'') = Some (PyStr (u ''reject''))"
    by simp
  have c2: "map_of [(u ''callback_id'', PyStr (u ''approve_1''))] (u ''callback_id'') = Some (PyStr (u ''approve_1''))"
    by simp
  have n: "re_match russian (lit (u ''approve'')) False (u ''reject'') = None" by code_simp
  have y: "re_match russian (lit (u ''approve'')) False (u ''approve_1'') = Some []" by code_simp
  have "process_action russian approve_action [(u ''callback_id'', PyStr (u ''reject''))] [] =
     (Inl (Exception (u ''unknown action'')), [])"
    using action_dispatch [OF c1, where U = russian and d = approve_action and w = "[]"] n
    by (simp add: as)
  moreover have "process_action russian approve_action [(u ''callback_id'', PyStr (u ''approve_1''))] [] =
        a_f ?a [(u ''callback_id'', PyStr (u ''approve_1''))] (groups []) []"
    by (rule action_dispatch [OF c2, where U = russian and d = approve_action and w = "[]",
          THEN conjunct2, rule_format, where pre = "[]" and a = ?a and post = "[]" and m = "[]"])
      (simp_all add: as y)
  then have "process_action russian approve_action [(u ''callback_id'', PyStr (u ''approve_1''))] [] =
     (Inr (PyStr (u ''done'')), [])"
    by simp
  ultimately show ?thesis by simp
qed

text \<open>
  C7, as stated, fails on letter case: a listener with the pattern \<open>hi\<close> matches \<open>HI\<close>,
  an action with the same pattern does not.
\<close>

theorem action_match_is_case_sensitive:
  "match russian (hi_listener PyNone False) (u ''HI'') = Some []
   \<and> process_action russian
        (register_action (Dispatcher (u ''U123'') []) (lit (u ''hi'')) (\<lambda>payload gs w. (Inr (PyStr (u ''done'')), w)))
        [(u ''callback_id'', PyStr (u ''HI''))] [] =
      (Inl (Exception (u ''unknown action'')), [])"
  by code_simp

section \<open>Commands\<close>

lemma register_commands_ok:
  "(\<exists>d'. register_commands d regs = Inr d') \<longleftrightarrow>
     distinct (map fst regs) \<and> set (map fst regs) \<inter> dom (commands d) = {}"
proof (induction regs arbitrary: d)
  case Nil
  then show ?case by simp
next
  case (Cons nh regs)
  show ?case
  proof (cases "commands d (fst nh) = None")
    case True
    let ?d1 = "d\<lparr>commands := (commands d)(fst nh \<mapsto> snd nh)\<rparr>"
    have e: "register_commands d (nh # regs) = register_commands ?d1 regs"
      using True by (simp add: register_command_def)
    have dm: "dom (commands ?d1) = insert (fst nh) (dom (commands d))" by simp
    have nd: "fst nh \<notin> dom (commands d)" using True by (simp add: domIff)
    show ?thesis
      unfolding e Cons.IH [of ?d1] dm using nd by auto
  next
    case False
    then show ?thesis by (auto simp: register_command_def)
  qed
qed

text \<open>
  C8. Registering a command under a name that is already in the command map raises
  \<open>Duplicate command\<close>, at the registration itself. A registration that succeeds was for a
  new name: it adds the handler and changes no other entry. So a sequence of
  registrations on a new dispatcher succeeds if and only if its names are all different.
\<close>

theorem duplicate_command_raises:
  "(commands d name \<noteq> None \<longrightarrow>
      register_command d name h = Inl (Exception (u ''Duplicate command '' @ name)))
   \<and> (\<forall>d'. register_command d name h = Inr d' \<longrightarrow>
        commands d name = None \<and> commands d' name = Some h
        \<and> (\<forall>n. n \<noteq> name \<longrightarrow> commands d' n = commands d n))
   \<and> ((\<exists>d'. register_commands (Dispatcher b names) regs = Inr d') \<longleftrightarrow> distinct (map fst regs))"
proof -
  have "(\<exists>d'. register_commands (Dispatcher b names) regs = Inr d') \<longleftrightarrow> distinct (map fst regs)"
    by (simp add: register_commands_ok Dispatcher_def)
  then show ?thesis
    by (auto simp: register_command_def split: if_splits)
qed

text \<open>\<open>/deploy\<close> twice raises; \<open>/deploy\<close> and \<open>/status\<close> are both registered.\<close>

theorem duplicate_command_raises_witness:
  "register_command deploy_command (u ''/deploy'') (\<lambda>payload w. (Inr PyNone, w)) =
     Inl (Exception (u ''Duplicate command /deploy''))
   \<and> \<not> (\<exists>d'. register_commands (Dispatcher (u ''U123'') [])
              [(u ''/deploy'', \<lambda>payload w. (Inr PyNone, w)),
               (u ''/deploy'', \<lambda>payload w. (Inr (PyStr (u ''done'')), w))] = Inr d')
   \<and> (\<exists>d'. register_commands (Dispatcher (u ''U123'') [])
              [(u ''/deploy'', \<lambda>payload w. (Inr PyNone, w)),
               (u ''/status'', \<lambda>payload w. (Inr (PyStr (u ''done'')), w))] = Inr d')"
proof -
  have c: "commands deploy_command (u ''/deploy'') \<noteq> None" by (simp add: deploy_command_def)
  have "register_command deploy_command (u ''/deploy'') (\<lambda>payload w. (Inr PyNone, w)) =
     Inl (Exception (u ''Duplicate command /deploy''))"
    using duplicate_command_raises [where d = deploy_command and name = "u ''/deploy''"
        and h = "\<lambda>payload w. (Inr PyNone, w)" and b = "u ''U123''" and names = "[]"
        and regs = "[]"] c
    by (simp add: u_append)
  moreover have "\<not> (\<exists>d'. register_commands (Dispatcher (u ''U123'') [])
              [(u ''/deploy'', \<lambda>payload w. (Inr PyNone, w)),
               (u ''/deploy'', \<lambda>payload w. (Inr (PyStr (u ''done'')), w))] = Inr d')"
    using duplicate_command_raises [where d = deploy_command and name = "u ''/deploy''"
        and h = "\<lambda>payload w. (Inr PyNone, w)" and b = "u ''U123''" and names = "[]" and regs =
        "[(u ''/deploy'', \<lambda>payload w. (Inr PyNone, w)),
          (u ''/deploy'', \<lambda>payload w. (Inr (PyStr (u ''done'')), w))]"]
    by simp
  moreover have "\<exists>d'. register_commands (Dispatcher (u ''U123'') [])
              [(u ''/deploy'', \<lambda>payload w. (Inr PyNone, w)),
               (u ''/status'', \<lambda>payload w. (Inr (PyStr (u ''done'')), w))] = Inr d'"
    using duplicate_command_raises [where d = deploy_command and name = "u ''/deploy''"
        and h = "\<lambda>payload w. (Inr PyNone, w)" and b = "u ''U123''" and names = "[]" and regs =
        "[(u ''/deploy'', \<lambda>payload w. (Inr PyNone, w)),
          (u ''/status'', \<lambda>payload w. (Inr (PyStr (u ''done'')), w))]"]
    by simp
  ultimately show ?thesis by blast
qed

section \<open>Errors while processing a message\<close>

text \<open>
  C9. For an event that is not the bot's own: when \<open>Dispatcher.process_message\<close> raises
  \<open>e\<close>, \<open>Bot.process_message\<close> catches it: it runs the cleanup hook on the world the
  failure left and then (the hook returning normally) what it does and returns is the
  reply to the message with the fixed prefix, \<open>str(e)\<close> and three backquotes as text. For
  an event that carries its channel this is exactly one call \<open>chat.postMessage\<close> to that
  channel, and when the client accepts the call \<open>Bot.process_message\<close> returns normally:
  \<open>e\<close> is not raised again.
\<close>

theorem message_errors_are_reported:
  assumes nb: "map_of raw (u ''bot_id'') = None"
    and err: "process_message U (b_dispatcher b) \<lparr>body = raw, sc = b_sc b\<rparr> w = (Inl e, w')"
    and cl: "cleanup_on_exception b w' = (Inr (), w'')"
    and ch: "map_of raw (u ''channel'') = Some ch"
  shows "bot_process_message U b raw w =
           reply U \<lparr>body = raw, sc = b_sc b\<rparr> (PyStr (went_wrong @ exc_str U e @ u ''```'')) [] w''
       \<and> (\<exists>a. snd (bot_process_message U b raw w) = w'' @ [\<lparr>api_method = u ''chat.postMessage'', api_args = a\<rparr>]
             \<and> map_of a (u ''text'') = Some (PyStr (went_wrong @ exc_str U e @ u ''```''))
             \<and> map_of a (u ''channel'') = Some ch
             \<and> map_of a (u ''thread_ts'') = map_of raw (u ''thread_ts'')
             \<and> dom (map_of a) \<subseteq> {u ''text'', u ''channel'', u ''thread_ts''}
             \<and> (\<forall>res ok. b_sc b w'' \<lparr>api_method = u ''chat.postMessage'', api_args = a\<rparr> = Inr res \<longrightarrow>
                   py_getitem res (u ''ok'') = Inr ok \<longrightarrow> truthy ok \<longrightarrow>
                   bot_process_message U b raw w = (Inr (), w'' @ [\<lparr>api_method = u ''chat.postMessage'', api_args = a\<rparr>])))"
proof -
  let ?msg = "\<lparr>body = raw, sc = b_sc b\<rparr>"
  have r: "bot_process_message U b raw w =
          reply U ?msg (PyStr (went_wrong @ exc_str U e @ u ''```'')) [] w''"
    using nb err cl by (simp add: bot_process_message_def Let_def)
  have c: "map_of (body ?msg) (u ''channel'') = Some ch" using ch by simp
  from reply_plain [OF c, where U = U and t = "PyStr (went_wrong @ exc_str U e @ u ''```'')"
      and w = w'']
  have "\<exists>a. snd (bot_process_message U b raw w) = w'' @ [\<lparr>api_method = u ''chat.postMessage'', api_args = a\<rparr>]
             \<and> map_of a (u ''text'') = Some (PyStr (went_wrong @ exc_str U e @ u ''```''))
             \<and> map_of a (u ''channel'') = Some ch
             \<and> map_of a (u ''thread_ts'') = map_of raw (u ''thread_ts'')
             \<and> dom (map_of a) \<subseteq> {u ''text'', u ''channel'', u ''thread_ts''}
             \<and> (\<forall>res ok. b_sc b w'' \<lparr>api_method = u ''chat.postMessage'', api_args = a\<rparr> = Inr res \<longrightarrow>
                   py_getitem res (u ''ok'') = Inr ok \<longrightarrow> truthy ok \<longrightarrow>
                   bot_process_message U b raw w = (Inr (), w'' @ [\<lparr>api_method = u ''chat.postMessage'', api_args = a\<rparr>]))"
    unfolding r by simp
  with r show ?thesis by blast
qed

text \<open>
  The handler of \<open>bad_bot\<close> returns \<open>5\<close>: the user is told \<open>Bad listener result: 5\<close>, and
  \<open>Bot.process_message\<close> returns normally.
\<close>

theorem message_errors_are_reported_witness:
  "bot_process_message russian bad_bot (text_event (u ''hi'') (u ''channel'')) [] =
     (Inr (), [\<lparr>api_method = u ''chat.postMessage'',
                api_args = [(u ''text'', PyStr (went_wrong @ u ''Bad listener result: 5```'')),
                            (u ''channel'', PyStr (u ''C1''))]\<rparr>])"
proof -
  let ?raw = "text_event (u ''hi'') (u ''channel'')"
  have nb: "map_of ?raw (u ''bot_id'') = None" by (simp add: text_event_def)
  have err: "process_message russian (b_dispatcher bad_bot) \<lparr>body = ?raw, sc = b_sc bad_bot\<rparr> [] =
      (Inl (Exception (u ''Bad listener result: 5'')), [])"
    by code_simp
  have cl: "cleanup_on_exception bad_bot [] = (Inr (), [])"
    by (simp add: bad_bot_def no_cleanup_def)
  have ch: "map_of ?raw (u ''channel'') = Some (PyStr (u ''C1''))" by (simp add: text_event_def)
  have "reply russian \<lparr>body = ?raw, sc = b_sc bad_bot\<rparr>
          (PyStr (went_wrong @ exc_str russian (Exception (u ''Bad listener result: 5'')) @ u ''```''))
          [] [] =
     (Inr (), [\<lparr>api_method = u ''chat.postMessage'',
                api_args = [(u ''text'', PyStr (went_wrong @ u ''Bad listener result: 5```'')),
                            (u ''channel'', PyStr (u ''C1''))]\<rparr>])"
    by code_simp
  with message_errors_are_reported [OF nb err cl ch] show ?thesis by simp
qed

end
